theory Spec2Isabelle
  imports Main
begin

section \<open>Loopback gRPC streams of the storage plugin (testing\_grpc\_stream.go)\<close>

text \<open>
  The file mocks the GetObject (server streaming) and PutObject (client streaming) calls
  with unbuffered Go channels shared by a client and a server handle. The development
  below embeds the stream structs, their mutex-protected methods, and every method of the
  four handles that touches a channel or a closed flag.

  Conventions of the embedding:
  \<^item> a Go pointer to a protobuf message is \<open>'p option\<close>, \<open>None\<close> being \<open>nil\<close>; the
    protobuf message types themselves are not part of the file and stay a type parameter;
  \<^item> a Go \<open>error\<close> result is \<open>error option\<close>, \<open>None\<close> being \<open>nil\<close>;
  \<^item> an error value is identified by its message; \<open>io.EOF\<close> is a constructor of its own;
  \<^item> a method body that runs between \<open>m.Lock()\<close> and the deferred \<open>m.Unlock()\<close> is one
    atomic function on the stream state;
  \<^item> a handle method is a small process: a sequence of calls of stream methods and
    channel operations, ended by \<open>return\<close> or by a panic. Its meaning is given by a
    step semantics of two goroutines on one stream.
\<close>

subsection \<open>Errors and messages\<close>

datatype error =
    EOF
  | Errorf string

text \<open>The conditions the specification names, read off the message text.\<close>

definition AlreadyClosed :: "error \<Rightarrow> bool" where
  "AlreadyClosed e = (e = Errorf ''stream is closed'')"

definition InvalidArgument :: "error \<Rightarrow> bool" where
  "InvalidArgument e =
     (case e of
        EOF \<Rightarrow> False
      | Errorf t \<Rightarrow>
          t = ''parameter arg \"resp GetObjectResponse\" cannot be nil''
          \<or> t = ''parameter arg \"req PutObjectRequest\" cannot be nil''
          \<or> t = ''parameter arg \"resp PutObjectResponse\" cannot be nil''
          \<or> take 17 t = ''invalid argument '')"

text \<open>
  \<open>getObjectStreamResponse\<close>, \<open>putObjectStreamRequest\<close> and \<open>putObjectStreamResponse\<close>
  are three structs of the same shape: a message pointer and an error.
\<close>

record 'p getObjectStreamResponse =
  msg :: "'p option"
  err :: "error option"

type_synonym 'p putObjectStreamRequest = "'p getObjectStreamResponse"
type_synonym 'p putObjectStreamResponse = "'p getObjectStreamResponse"

text \<open>
  The argument of \<open>SendMsg(m interface{})\<close>, by the cases its type switch tells apart:
  a pointer to the response type of the stream (possibly a nil pointer), a value that
  implements \<open>error\<close>, the nil interface, and a value of any other dynamic type, kept
  as its \<open>%v\<close> rendering.
\<close>

datatype 'p iface =
    Response "'p option"
  | Err error
  | NilIface
  | Other string

fun fmt_v :: "'p iface \<Rightarrow> string" where
  "fmt_v NilIface = ''<nil>''"
| "fmt_v (Other t) = t"
| "fmt_v (Err EOF) = ''EOF''"
| "fmt_v (Err (Errorf t)) = t"
| "fmt_v (Response r) = ''<nil>''"

subsection \<open>Channels\<close>

text \<open>
  All channels are made by \<open>make(chan T)\<close>, without capacity: a channel holds no
  message, a send completes only in a hand-off with a receive. What remains of a channel
  as state is whether it has been closed. The builtin \<open>close\<close> panics on a closed
  channel (\<open>None\<close>).
\<close>

datatype chan = ChanOpen | ChanClosed

fun close_chan :: "chan \<Rightarrow> chan option" where
  "close_chan ChanOpen = Some ChanClosed"
| "close_chan ChanClosed = None"

subsection \<open>getObjectStream\<close>

record getObjectStream =
  messages :: chan
  streamClosed :: bool

definition IsStreamClosed :: "getObjectStream \<Rightarrow> bool" where
  "IsStreamClosed s = streamClosed s"

definition Close :: "getObjectStream \<Rightarrow> getObjectStream option" where
  "Close s =
     (if streamClosed s then Some s
      else case close_chan (messages s) of
             None \<Rightarrow> None
           | Some c \<Rightarrow> Some (s\<lparr>messages := c, streamClosed := True\<rparr>))"

definition newGetObjectStream :: getObjectStream where
  "newGetObjectStream = \<lparr>messages = ChanOpen, streamClosed = False\<rparr>"

text \<open>The flag and the channel agree in every state the methods can produce.\<close>

definition get_wf :: "getObjectStream \<Rightarrow> bool" where
  "get_wf s = (streamClosed s = (messages s = ChanClosed))"

subsection \<open>putObjectStream\<close>

record putObjectStream =
  requests :: chan
  responses :: chan
  clientClosed :: bool
  serverClosed :: bool

definition CloseClient :: "putObjectStream \<Rightarrow> putObjectStream option" where
  "CloseClient s =
     (if clientClosed s then Some s
      else case close_chan (requests s) of
             None \<Rightarrow> None
           | Some c \<Rightarrow> Some (s\<lparr>requests := c, clientClosed := True\<rparr>))"

definition IsClientClosed :: "putObjectStream \<Rightarrow> bool" where
  "IsClientClosed s = clientClosed s"

definition CloseServer :: "putObjectStream \<Rightarrow> putObjectStream option" where
  "CloseServer s =
     (if serverClosed s then Some s
      else case close_chan (responses s) of
             None \<Rightarrow> None
           | Some c \<Rightarrow> Some (s\<lparr>responses := c, serverClosed := True\<rparr>))"

definition IsServerClosed :: "putObjectStream \<Rightarrow> bool" where
  "IsServerClosed s = serverClosed s"

definition newPutObjectStream :: putObjectStream where
  "newPutObjectStream =
     \<lparr>requests = ChanOpen, responses = ChanOpen, clientClosed = False, serverClosed = False\<rparr>"

definition put_wf :: "putObjectStream \<Rightarrow> bool" where
  "put_wf s =
     (clientClosed s = (requests s = ChanClosed) \<and> serverClosed s = (responses s = ChanClosed))"

subsection \<open>Processes: the bodies of the handle methods\<close>

text \<open>
  \<open>Call k f\<close> calls the stream method \<open>k\<close> (atomic, under the mutex) and goes on with its
  boolean result (\<open>True\<close> for a method without result). \<open>ChanSend c m p h\<close> is \<open>c <- m\<close>
  followed by \<open>p\<close>; if the send panics, the deferred calls \<open>h\<close> run. \<open>ChanRecv c f\<close> is
  \<open>v, ok := <-c\<close>; \<open>f\<close> gets \<open>None\<close> when \<open>ok\<close> is false.
\<close>

datatype ('k, 'c, 'm, 'a) proc =
    Return 'a
  | Panic
  | Call 'k "bool \<Rightarrow> ('k, 'c, 'm, 'a) proc"
  | ChanSend 'c 'm "('k, 'c, 'm, 'a) proc" "('k, 'c, 'm, 'a) proc"
  | ChanRecv 'c "'m option \<Rightarrow> ('k, 'c, 'm, 'a) proc"

text \<open>Sequencing of two calls in one goroutine.\<close>

primrec and_then ::
  "('k, 'c, 'm, 'a) proc \<Rightarrow> ('a \<Rightarrow> ('k, 'c, 'm, 'b) proc) \<Rightarrow> ('k, 'c, 'm, 'b) proc" where
  "and_then (Return a) f = f a"
| "and_then Panic f = Panic"
| "and_then (Call k g) f = Call k (\<lambda>b. and_then (g b) f)"
| "and_then (ChanSend c m p h) f = ChanSend c m (and_then p f) (and_then h f)"
| "and_then (ChanRecv c g) f = ChanRecv c (\<lambda>r. and_then (g r) f)"

text \<open>
  The semantics takes the stream as two parameters: \<open>ex\<close> runs a stream method on the
  state (\<open>None\<close> is a panic) and \<open>cl\<close> tells whether a channel is closed.

  A goroutine moves alone at a method call, at a send on a closed channel (it panics)
  and at a receive on a closed channel (it gets \<open>ok = false\<close>). At a send or receive on
  an open channel it is parked until a partner arrives.
\<close>

fun local_step ::
  "('k \<Rightarrow> 's \<Rightarrow> ('s \<times> bool) option) \<Rightarrow> ('c \<Rightarrow> 's \<Rightarrow> bool) \<Rightarrow>
   's \<Rightarrow> ('k, 'c, 'm, 'a) proc \<Rightarrow> ('s \<times> ('k, 'c, 'm, 'a) proc) option" where
  "local_step ex cl s (Return a) = None"
| "local_step ex cl s Panic = None"
| "local_step ex cl s (Call k f) =
     (case ex k s of None \<Rightarrow> Some (s, Panic) | Some (s', b) \<Rightarrow> Some (s', f b))"
| "local_step ex cl s (ChanSend c m p h) = (if cl c s then Some (s, h) else None)"
| "local_step ex cl s (ChanRecv c f) = (if cl c s then Some (s, f None) else None)"

text \<open>
  \<open>run\<close> lets one goroutine move alone for as long as it can: up to its return, a
  panic, or the point where it is parked on an open channel.
\<close>

primrec run ::
  "('k \<Rightarrow> 's \<Rightarrow> ('s \<times> bool) option) \<Rightarrow> ('c \<Rightarrow> 's \<Rightarrow> bool) \<Rightarrow>
   ('k, 'c, 'm, 'a) proc \<Rightarrow> 's \<Rightarrow> 's \<times> ('k, 'c, 'm, 'a) proc" where
  "run ex cl (Return a) s = (s, Return a)"
| "run ex cl Panic s = (s, Panic)"
| "run ex cl (Call k f) s =
     (case ex k s of None \<Rightarrow> (s, Panic) | Some (s', b) \<Rightarrow> run ex cl (f b) s')"
| "run ex cl (ChanSend c m p h) s = (if cl c s then run ex cl h s else (s, ChanSend c m p h))"
| "run ex cl (ChanRecv c f) s = (if cl c s then run ex cl (f None) s else (s, ChanRecv c f))"

text \<open>
  Two goroutines on one stream. A move is a step of one of them alone, or the hand-off
  of a message from a parked sender to a parked receiver on the same open channel.
\<close>

datatype move = StepL | StepR | HandLR | HandRL

fun do_move ::
  "('k \<Rightarrow> 's \<Rightarrow> ('s \<times> bool) option) \<Rightarrow> ('c \<Rightarrow> 's \<Rightarrow> bool) \<Rightarrow> move \<Rightarrow>
   's \<times> ('k, 'c, 'm, 'a) proc \<times> ('k, 'c, 'm, 'b) proc \<Rightarrow>
   ('s \<times> ('k, 'c, 'm, 'a) proc \<times> ('k, 'c, 'm, 'b) proc) option" where
  "do_move ex cl StepL (s, P, Q) =
     (case local_step ex cl s P of None \<Rightarrow> None | Some (s', P') \<Rightarrow> Some (s', P', Q))"
| "do_move ex cl StepR (s, P, Q) =
     (case local_step ex cl s Q of None \<Rightarrow> None | Some (s', Q') \<Rightarrow> Some (s', P, Q'))"
| "do_move ex cl HandLR (s, P, Q) =
     (case P of
        ChanSend c m p h \<Rightarrow>
          (case Q of
             ChanRecv c' f \<Rightarrow> if c = c' \<and> \<not> cl c s then Some (s, p, f (Some m)) else None
           | _ \<Rightarrow> None)
      | _ \<Rightarrow> None)"
| "do_move ex cl HandRL (s, P, Q) =
     (case Q of
        ChanSend c m q h \<Rightarrow>
          (case P of
             ChanRecv c' f \<Rightarrow> if c = c' \<and> \<not> cl c s then Some (s, f (Some m), q) else None
           | _ \<Rightarrow> None)
      | _ \<Rightarrow> None)"

fun run_moves ::
  "('k \<Rightarrow> 's \<Rightarrow> ('s \<times> bool) option) \<Rightarrow> ('c \<Rightarrow> 's \<Rightarrow> bool) \<Rightarrow> move list \<Rightarrow>
   's \<times> ('k, 'c, 'm, 'a) proc \<times> ('k, 'c, 'm, 'b) proc \<Rightarrow>
   ('s \<times> ('k, 'c, 'm, 'a) proc \<times> ('k, 'c, 'm, 'b) proc) option" where
  "run_moves ex cl [] C = Some C"
| "run_moves ex cl (mv # mvs) C =
     (case do_move ex cl mv C of None \<Rightarrow> None | Some C' \<Rightarrow> run_moves ex cl mvs C')"

text \<open>
  A sequence of calls of stream methods, by whichever goroutines: the mutex puts the
  calls in some order, and each runs to its end before the next. \<open>None\<close> is a panic.
\<close>

fun call_all :: "('k \<Rightarrow> 's \<Rightarrow> ('s \<times> bool) option) \<Rightarrow> 'k list \<Rightarrow> 's \<Rightarrow> 's option" where
  "call_all ex [] s = Some s"
| "call_all ex (k # ks) s = (case ex k s of None \<Rightarrow> None | Some (s', b) \<Rightarrow> call_all ex ks s')"

subsection \<open>The GetObject handles\<close>

text \<open>
  \<open>newGetObjectStream\<close> gives both handles the channel \<open>stream.messages\<close>, and binds
  their \<open>closeStream\<close> to \<open>stream.Close\<close> and their \<open>isStreamClosed\<close> to
  \<open>stream.IsStreamClosed\<close>.
\<close>

datatype get_method = CallIsStreamClosed | CallClose

datatype get_chan = Messages

fun get_ex :: "get_method \<Rightarrow> getObjectStream \<Rightarrow> (getObjectStream \<times> bool) option" where
  "get_ex CallIsStreamClosed s = Some (s, IsStreamClosed s)"
| "get_ex CallClose s = (case Close s of None \<Rightarrow> None | Some s' \<Rightarrow> Some (s', True))"

fun get_cl :: "get_chan \<Rightarrow> getObjectStream \<Rightarrow> bool" where
  "get_cl Messages s = (messages s = ChanClosed)"

type_synonym ('p, 'a) get_proc = "(get_method, get_chan, 'p getObjectStreamResponse, 'a) proc"

definition getObjectClient_Recv :: "('p, 'p option \<times> error option) get_proc" where
  "getObjectClient_Recv =
     ChanRecv Messages (\<lambda>r. case r of
        None \<Rightarrow> Return (None, Some EOF)
      | Some resp \<Rightarrow> Return (msg resp, err resp))"

definition getObjectClient_CloseSend :: "('p, error option) get_proc" where
  "getObjectClient_CloseSend =
     Call CallIsStreamClosed (\<lambda>closed.
       if closed then Return (Some (Errorf ''stream is closed''))
       else Call CallClose (\<lambda>_. Return None))"

definition getObjectClient_SendMsg :: "'p iface \<Rightarrow> ('p, error option) get_proc" where
  "getObjectClient_SendMsg m = Return None"

definition getObjectClient_RecvMsg :: "'p iface \<Rightarrow> ('p, error option) get_proc" where
  "getObjectClient_RecvMsg m = Return None"

definition getObjectServer_Send :: "'p option \<Rightarrow> ('p, error option) get_proc" where
  "getObjectServer_Send resp =
     (if resp = None
      then Return (Some (Errorf ''parameter arg \"resp GetObjectResponse\" cannot be nil''))
      else Call CallIsStreamClosed (\<lambda>closed.
        if closed then Return (Some (Errorf ''stream is closed''))
        else ChanSend Messages \<lparr>msg = resp, err = None\<rparr> (Return None) Panic))"

text \<open>
  In the error case of \<open>SendMsg\<close> the call of \<open>closeStream\<close> is deferred before the
  send: it runs after the hand-off, and also when the send panics.
\<close>

definition getObjectServer_SendMsg :: "'p iface \<Rightarrow> ('p, error option) get_proc" where
  "getObjectServer_SendMsg m =
     (case m of
        Response r \<Rightarrow>
          Call CallIsStreamClosed (\<lambda>closed.
            if closed then Return (Some (Errorf ''stream is closed''))
            else ChanSend Messages \<lparr>msg = r, err = None\<rparr> (Return None) Panic)
      | Err e \<Rightarrow>
          Call CallIsStreamClosed (\<lambda>closed.
            if closed then Return (Some (Errorf ''stream is closed''))
            else ChanSend Messages \<lparr>msg = None, err = Some e\<rparr>
                   (Call CallClose (\<lambda>_. Return None))
                   (Call CallClose (\<lambda>_. Panic)))
      | _ \<Rightarrow> Return (Some (Errorf (''invalid argument '' @ fmt_v m))))"

definition getObjectServer_RecvMsg :: "'p iface \<Rightarrow> ('p, error option) get_proc" where
  "getObjectServer_RecvMsg m = Return None"

subsection \<open>The PutObject handles\<close>

text \<open>
  \<open>newPutObjectStream\<close> binds the client's \<open>closeStream\<close> and \<open>isStreamClosed\<close> to
  \<open>CloseClient\<close> and \<open>IsClientClosed\<close>, the server's to \<open>CloseServer\<close> and
  \<open>IsServerClosed\<close>. The client sends on \<open>stream.requests\<close> and receives from
  \<open>stream.responses\<close>; the server the other way round.
\<close>

datatype put_method = CallCloseClient | CallIsClientClosed | CallCloseServer | CallIsServerClosed

datatype put_chan = Requests | Responses

fun put_ex :: "put_method \<Rightarrow> putObjectStream \<Rightarrow> (putObjectStream \<times> bool) option" where
  "put_ex CallIsClientClosed s = Some (s, IsClientClosed s)"
| "put_ex CallIsServerClosed s = Some (s, IsServerClosed s)"
| "put_ex CallCloseClient s = (case CloseClient s of None \<Rightarrow> None | Some s' \<Rightarrow> Some (s', True))"
| "put_ex CallCloseServer s = (case CloseServer s of None \<Rightarrow> None | Some s' \<Rightarrow> Some (s', True))"

fun put_cl :: "put_chan \<Rightarrow> putObjectStream \<Rightarrow> bool" where
  "put_cl Requests s = (requests s = ChanClosed)"
| "put_cl Responses s = (responses s = ChanClosed)"

type_synonym ('p, 'a) put_proc = "(put_method, put_chan, 'p getObjectStreamResponse, 'a) proc"

definition putObjectClient_Send :: "'p option \<Rightarrow> ('p, error option) put_proc" where
  "putObjectClient_Send req =
     (if req = None
      then Return (Some (Errorf ''parameter arg \"req PutObjectRequest\" cannot be nil''))
      else Call CallIsClientClosed (\<lambda>closed.
        if closed then Return (Some (Errorf ''stream is closed''))
        else ChanSend Requests \<lparr>msg = req, err = None\<rparr> (Return None) Panic))"

definition putObjectClient_CloseAndRecv :: "('p, 'p option \<times> error option) put_proc" where
  "putObjectClient_CloseAndRecv =
     Call CallCloseClient (\<lambda>_.
       ChanRecv Responses (\<lambda>r. case r of
          None \<Rightarrow> Return (None, Some EOF)
        | Some resp \<Rightarrow> Return (msg resp, err resp)))"

definition putObjectClient_CloseSend :: "('p, error option) put_proc" where
  "putObjectClient_CloseSend =
     Call CallIsClientClosed (\<lambda>closed.
       if closed then Return (Some (Errorf ''stream is closed''))
       else Call CallCloseClient (\<lambda>_. Return None))"

definition putObjectClient_SendMsg :: "'p iface \<Rightarrow> ('p, error option) put_proc" where
  "putObjectClient_SendMsg m = Return None"

definition putObjectClient_RecvMsg :: "'p iface \<Rightarrow> ('p, error option) put_proc" where
  "putObjectClient_RecvMsg m = Return None"

definition putObjectServer_SendAndClose :: "'p option \<Rightarrow> ('p, error option) put_proc" where
  "putObjectServer_SendAndClose resp =
     (if resp = None
      then Return (Some (Errorf ''parameter arg \"resp PutObjectResponse\" cannot be nil''))
      else Call CallIsServerClosed (\<lambda>closed.
        if closed then Return (Some (Errorf ''stream is closed''))
        else ChanSend Responses \<lparr>msg = resp, err = None\<rparr>
               (Call CallCloseServer (\<lambda>_. Return None))
               Panic))"

definition putObjectServer_Recv :: "('p, 'p option \<times> error option) put_proc" where
  "putObjectServer_Recv =
     ChanRecv Requests (\<lambda>r. case r of
        None \<Rightarrow> Return (None, Some EOF)
      | Some req \<Rightarrow> Return (msg req, err req))"

text \<open>
  Here \<open>closeStream\<close> is deferred after the send: it runs when the method returns, and
  not when the send panics.
\<close>

definition putObjectServer_SendMsg :: "'p iface \<Rightarrow> ('p, error option) put_proc" where
  "putObjectServer_SendMsg m =
     (case m of
        Response r \<Rightarrow>
          Call CallIsServerClosed (\<lambda>closed.
            if closed then Return (Some (Errorf ''stream is closed''))
            else ChanSend Responses \<lparr>msg = r, err = None\<rparr> (Return None) Panic)
      | Err e \<Rightarrow>
          Call CallIsServerClosed (\<lambda>closed.
            if closed then Return (Some (Errorf ''stream is closed''))
            else ChanSend Responses \<lparr>msg = None, err = Some e\<rparr>
                   (Call CallCloseServer (\<lambda>_. Return None))
                   Panic)
      | _ \<Rightarrow> Return (Some (Errorf (''invalid argument '' @ fmt_v m))))"

definition putObjectServer_RecvMsg :: "'p iface \<Rightarrow> ('p, error option) put_proc" where
  "putObjectServer_RecvMsg m = Return None"

subsection \<open>Callers\<close>

text \<open>
  Two callers of the download handles. The producer sends the payloads one after the
  other, keeps what each \<open>Send\<close> returned, and closes the stream. The consumer calls
  \<open>Recv\<close> until it gets an error other than nil (at most \<open>k\<close> times) and keeps every
  result.
\<close>

primrec send_all_then_close ::
  "'p list \<Rightarrow> error option list \<Rightarrow> ('p, error option list) get_proc" where
  "send_all_then_close [] acc = Call CallClose (\<lambda>_. Return acc)"
| "send_all_then_close (p # ps) acc =
     and_then (getObjectServer_Send (Some p)) (\<lambda>e. send_all_then_close ps (acc @ [e]))"

primrec recv_until_error ::
  "nat \<Rightarrow> ('p option \<times> error option) list \<Rightarrow>
   ('p, ('p option \<times> error option) list) get_proc" where
  "recv_until_error 0 obs = Return obs"
| "recv_until_error (Suc k) obs =
     and_then getObjectClient_Recv
       (\<lambda>r. if snd r \<noteq> None then Return (obs @ [r]) else recv_until_error k (obs @ [r]))"

subsection \<open>Runs\<close>

text \<open>A configuration is stuck when no move is possible: both goroutines are done,
  or what is left of them can never go on.\<close>

definition stuck ::
  "('k \<Rightarrow> 's \<Rightarrow> ('s \<times> bool) option) \<Rightarrow> ('c \<Rightarrow> 's \<Rightarrow> bool) \<Rightarrow>
   's \<times> ('k, 'c, 'm, 'a) proc \<times> ('k, 'c, 'm, 'b) proc \<Rightarrow> bool" where
  "stuck ex cl C =
     (do_move ex cl StepL C = None \<and> do_move ex cl StepR C = None
      \<and> do_move ex cl HandLR C = None \<and> do_move ex cl HandRL C = None)"

text \<open>Every run from \<open>C\<close>, however scheduled, can be continued to \<open>F\<close>.\<close>

definition leads_to ::
  "('k \<Rightarrow> 's \<Rightarrow> ('s \<times> bool) option) \<Rightarrow> ('c \<Rightarrow> 's \<Rightarrow> bool) \<Rightarrow>
   's \<times> ('k, 'c, 'm, 'a) proc \<times> ('k, 'c, 'm, 'b) proc \<Rightarrow>
   's \<times> ('k, 'c, 'm, 'a) proc \<times> ('k, 'c, 'm, 'b) proc \<Rightarrow> bool" where
  "leads_to ex cl C F =
     (\<forall>mvs D. run_moves ex cl mvs C = Some D \<longrightarrow> (\<exists>rest. run_moves ex cl rest D = Some F))"

text \<open>
  The places a server goroutine can be at while it runs a method that checks the closed
  flag, sends one message and closes the stream: at the check (\<open>P0\<close>), parked in the
  send, before the close, panicked, or returned. It has returned nil only with the
  stream closed.
\<close>

definition get_send_states ::
  "('p, error option) get_proc \<Rightarrow> 'p getObjectStreamResponse \<Rightarrow>
   getObjectStream \<times> ('p, error option) get_proc \<times> ('p, 'b) get_proc \<Rightarrow> bool" where
  "get_send_states P0 m C =
     (case C of (s, P, Q) \<Rightarrow>
        get_wf s \<and>
        (P = P0
         \<or> P = ChanSend Messages m (Call CallClose (\<lambda>_. Return None)) (Call CallClose (\<lambda>_. Panic))
         \<or> P = Call CallClose (\<lambda>_. Return None)
         \<or> P = Call CallClose (\<lambda>_. Panic)
         \<or> P = Panic
         \<or> P = Return (Some (Errorf ''stream is closed''))
         \<or> (P = Return None \<and> streamClosed s)))"

definition put_send_states ::
  "('p, error option) put_proc \<Rightarrow> 'p getObjectStreamResponse \<Rightarrow>
   putObjectStream \<times> ('p, error option) put_proc \<times> ('p, 'b) put_proc \<Rightarrow> bool" where
  "put_send_states P0 m C =
     (case C of (t, P, Q) \<Rightarrow>
        put_wf t \<and>
        (P = P0
         \<or> P = ChanSend Responses m (Call CallCloseServer (\<lambda>_. Return None)) Panic
         \<or> P = Call CallCloseServer (\<lambda>_. Return None)
         \<or> P = Panic
         \<or> P = Return (Some (Errorf ''stream is closed''))
         \<or> (P = Return None \<and> serverClosed t)))"

section \<open>Properties\<close>

lemmas get_methods = getObjectClient_Recv_def getObjectClient_CloseSend_def
  getObjectServer_Send_def getObjectServer_SendMsg_def IsStreamClosed_def Close_def

lemmas put_methods = putObjectClient_Send_def putObjectClient_CloseAndRecv_def
  putObjectClient_CloseSend_def putObjectServer_SendAndClose_def putObjectServer_Recv_def
  putObjectServer_SendMsg_def IsClientClosed_def IsServerClosed_def CloseClient_def
  CloseServer_def

subsection \<open>The stream methods keep flag and channel in step\<close>

lemma get_wf_new: "get_wf newGetObjectStream"
  by (simp add: get_wf_def newGetObjectStream_def)

lemma put_wf_new: "put_wf newPutObjectStream"
  by (simp add: put_wf_def newPutObjectStream_def)

lemma get_ex_closed: "streamClosed s \<Longrightarrow> get_ex k s = Some (s, True)"
  by (cases k) (simp_all add: IsStreamClosed_def Close_def)

lemma get_ex_wf:
  "get_wf s \<Longrightarrow> \<exists>s' b. get_ex k s = Some (s', b) \<and> get_wf s' \<and> (streamClosed s \<longrightarrow> s' = s)"
  by (cases k; cases "messages s") (auto simp: get_wf_def IsStreamClosed_def Close_def)

lemma get_Close_wf:
  "get_wf s \<Longrightarrow>
   \<exists>s'. Close s = Some s' \<and> get_wf s' \<and> streamClosed s' \<and> messages s' = ChanClosed
        \<and> Close s' = Some s'"
  by (cases "messages s") (auto simp: get_wf_def Close_def)

lemma put_ex_wf:
  "put_wf t \<Longrightarrow>
   \<exists>t' b. put_ex k t = Some (t', b) \<and> put_wf t'
     \<and> clientClosed t' = (clientClosed t \<or> k = CallCloseClient)
     \<and> serverClosed t' = (serverClosed t \<or> k = CallCloseServer)"
  by (cases k; cases "requests t"; cases "responses t") (auto simp: put_wf_def put_methods)

lemma put_closed_noop:
  "(clientClosed t \<longrightarrow> CloseClient t = Some t) \<and> (serverClosed t \<longrightarrow> CloseServer t = Some t)"
  by (simp add: put_methods)

subsection \<open>Closing any number of times\<close>

lemma get_call_all_closed: "streamClosed s \<Longrightarrow> call_all get_ex ks s = Some s"
  by (induction ks) (simp_all add: get_ex_closed)

lemma get_call_all_Close:
  "get_wf s \<Longrightarrow> CallClose \<in> set ks \<Longrightarrow> call_all get_ex ks s = Close s"
proof (induction ks)
  case Nil
  then show ?case by simp
next
  case (Cons k ks)
  obtain s' where s': "Close s = Some s'" "streamClosed s'"
    using get_Close_wf [OF Cons.prems(1)] by blast
  show ?case
  proof (cases k)
    case CallIsStreamClosed
    with Cons show ?thesis by (simp add: IsStreamClosed_def)
  next
    case CallClose
    with s' show ?thesis by (simp add: get_call_all_closed)
  qed
qed

lemma put_call_all:
  "put_wf t \<Longrightarrow>
   \<exists>t'. call_all put_ex ks t = Some t' \<and> put_wf t'
     \<and> clientClosed t' = (clientClosed t \<or> CallCloseClient \<in> set ks)
     \<and> serverClosed t' = (serverClosed t \<or> CallCloseServer \<in> set ks)"
proof (induction ks arbitrary: t)
  case Nil
  then show ?case by simp
next
  case (Cons k ks)
  from put_ex_wf [OF Cons.prems, of k] obtain t1 b where
    t1: "put_ex k t = Some (t1, b)" "put_wf t1"
      "clientClosed t1 = (clientClosed t \<or> k = CallCloseClient)"
      "serverClosed t1 = (serverClosed t \<or> k = CallCloseServer)"
    by blast
  from Cons.IH [OF t1(2)] t1 show ?case by auto
qed

text \<open>
  C2. On the download stream, any sequence of calls of \<open>Close\<close> and \<open>IsStreamClosed\<close>
  that holds at least one \<open>Close\<close> ends in the state a single \<open>Close\<close> gives: no call
  panics, the channel is closed, a further \<open>Close\<close> changes nothing and \<open>IsStreamClosed\<close>
  is true. On the upload stream, any sequence of calls of the four stream methods ends
  without panic in the state where a half is closed exactly if it was closed before or
  its close method is among the calls, and closing a closed half again changes nothing.
\<close>

theorem close_exactly_once:
  assumes "get_wf s" and "CallClose \<in> set ks" and "put_wf t"
  shows "(\<exists>s'. Close s = Some s' \<and> call_all get_ex ks s = Some s' \<and> Close s' = Some s'
            \<and> IsStreamClosed s' \<and> messages s' = ChanClosed)
       \<and> (\<exists>t'. call_all put_ex js t = Some t' \<and> put_wf t'
            \<and> IsClientClosed t' = (IsClientClosed t \<or> CallCloseClient \<in> set js)
            \<and> IsServerClosed t' = (IsServerClosed t \<or> CallCloseServer \<in> set js)
            \<and> (IsClientClosed t' \<longrightarrow> CloseClient t' = Some t')
            \<and> (IsServerClosed t' \<longrightarrow> CloseServer t' = Some t'))"
proof
  from get_Close_wf [OF assms(1)] get_call_all_Close [OF assms(1,2)]
  show "\<exists>s'. Close s = Some s' \<and> call_all get_ex ks s = Some s' \<and> Close s' = Some s'
            \<and> IsStreamClosed s' \<and> messages s' = ChanClosed"
    by (auto simp: IsStreamClosed_def)
next
  from put_call_all [OF assms(3), of js] put_closed_noop
  show "\<exists>t'. call_all put_ex js t = Some t' \<and> put_wf t'
            \<and> IsClientClosed t' = (IsClientClosed t \<or> CallCloseClient \<in> set js)
            \<and> IsServerClosed t' = (IsServerClosed t \<or> CallCloseServer \<in> set js)
            \<and> (IsClientClosed t' \<longrightarrow> CloseClient t' = Some t')
            \<and> (IsServerClosed t' \<longrightarrow> CloseServer t' = Some t')"
    unfolding IsClientClosed_def IsServerClosed_def by blast
qed

theorem close_exactly_once_witness:
  "get_wf newGetObjectStream
   \<and> CallClose \<in> set [CallClose, CallIsStreamClosed, CallClose, CallClose]
   \<and> put_wf newPutObjectStream
   \<and> call_all get_ex [CallClose, CallIsStreamClosed, CallClose, CallClose] newGetObjectStream
       = Some \<lparr>messages = ChanClosed, streamClosed = True\<rparr>
   \<and> Close newGetObjectStream = Some \<lparr>messages = ChanClosed, streamClosed = True\<rparr>
   \<and> call_all put_ex
         [CallCloseServer, CallCloseClient, CallCloseServer, CallIsServerClosed, CallCloseClient]
         newPutObjectStream
       = Some \<lparr>requests = ChanClosed, responses = ChanClosed,
               clientClosed = True, serverClosed = True\<rparr>"
  using close_exactly_once [of newGetObjectStream
      "[CallClose, CallIsStreamClosed, CallClose, CallClose]" newPutObjectStream
      "[CallCloseServer, CallCloseClient, CallCloseServer, CallIsServerClosed, CallCloseClient]"]
  by (simp add: get_wf_def put_wf_def newGetObjectStream_def newPutObjectStream_def
      get_methods put_methods)

subsection \<open>Rejections\<close>

text \<open>
  C6. On a closed half, \<open>Send\<close> of the download server, \<open>Send\<close> of the upload client and
  \<open>SendAndClose\<close> of the upload server, called with a payload that is not nil, return the
  error "stream is closed": the method returns without reaching its channel send, and the
  state is the one it was called in.
\<close>

theorem send_on_closed_half:
  assumes "IsStreamClosed s" and "IsClientClosed t" and "IsServerClosed u"
  shows "run get_ex get_cl (getObjectServer_Send (Some p)) s
           = (s, Return (Some (Errorf ''stream is closed'')))
       \<and> run put_ex put_cl (putObjectClient_Send (Some q)) t
           = (t, Return (Some (Errorf ''stream is closed'')))
       \<and> run put_ex put_cl (putObjectServer_SendAndClose (Some r)) u
           = (u, Return (Some (Errorf ''stream is closed'')))
       \<and> AlreadyClosed (Errorf ''stream is closed'')"
  using assms by (simp add: get_methods put_methods AlreadyClosed_def)

theorem send_on_closed_half_witness:
  "IsStreamClosed \<lparr>messages = ChanClosed, streamClosed = True\<rparr>
   \<and> IsClientClosed \<lparr>requests = ChanClosed, responses = ChanOpen,
                     clientClosed = True, serverClosed = False\<rparr>
   \<and> IsServerClosed \<lparr>requests = ChanOpen, responses = ChanClosed,
                     clientClosed = False, serverClosed = True\<rparr>
   \<and> run get_ex get_cl (getObjectServer_Send (Some ''a''))
        \<lparr>messages = ChanClosed, streamClosed = True\<rparr>
       = (\<lparr>messages = ChanClosed, streamClosed = True\<rparr>,
          Return (Some (Errorf ''stream is closed'')))
   \<and> run put_ex put_cl (putObjectServer_SendAndClose (Some ''r''))
        \<lparr>requests = ChanOpen, responses = ChanClosed, clientClosed = False, serverClosed = True\<rparr>
       = (\<lparr>requests = ChanOpen, responses = ChanClosed, clientClosed = False, serverClosed = True\<rparr>,
          Return (Some (Errorf ''stream is closed'')))"
  using send_on_closed_half [of "\<lparr>messages = ChanClosed, streamClosed = True\<rparr>"
      "\<lparr>requests = ChanClosed, responses = ChanOpen, clientClosed = True, serverClosed = False\<rparr>"
      "\<lparr>requests = ChanOpen, responses = ChanClosed, clientClosed = False, serverClosed = True\<rparr>"
      "''a''" "''x''" "''r''"]
  by (simp add: IsStreamClosed_def IsClientClosed_def IsServerClosed_def)

text \<open>
  C7. Called with a nil payload, the three methods return their "cannot be nil" error in
  every state: the method returns at once, no stream method is called, nothing is sent,
  and the state is the one it was called in.
\<close>

theorem nil_payload_rejected:
  "(\<exists>e. run get_ex get_cl (getObjectServer_Send None) s = (s, Return (Some e))
        \<and> InvalidArgument e)
   \<and> (\<exists>e. run put_ex put_cl (putObjectClient_Send None) t = (t, Return (Some e))
        \<and> InvalidArgument e)
   \<and> (\<exists>e. run put_ex put_cl (putObjectServer_SendAndClose None) t = (t, Return (Some e))
        \<and> InvalidArgument e)"
  by (simp add: get_methods put_methods InvalidArgument_def)

subsection \<open>Runs of two goroutines\<close>

lemma get_open: "get_wf s \<Longrightarrow> \<not> streamClosed s \<Longrightarrow> messages s = ChanOpen"
  by (cases "messages s") (simp_all add: get_wf_def)

lemma put_open_server: "put_wf t \<Longrightarrow> \<not> serverClosed t \<Longrightarrow> responses t = ChanOpen"
  by (cases "responses t") (simp_all add: put_wf_def)

lemma put_CloseClient_wf:
  "put_wf t \<Longrightarrow> CloseClient t = Some (t\<lparr>requests := ChanClosed, clientClosed := True\<rparr>)"
  by (cases "requests t") (auto simp: put_wf_def CloseClient_def)

lemma put_CloseServer_wf:
  "put_wf t \<Longrightarrow> CloseServer t = Some (t\<lparr>responses := ChanClosed, serverClosed := True\<rparr>)"
  by (cases "responses t") (auto simp: put_wf_def CloseServer_def)

lemma run_moves_invariant:
  assumes "run_moves ex cl mvs C = Some C'" and "I C"
    and "\<And>mv C C'. I C \<Longrightarrow> do_move ex cl mv C = Some C' \<Longrightarrow> I C'"
  shows "I C'"
  using assms(1,2)
proof (induction mvs arbitrary: C)
  case Nil
  then show ?case by simp
next
  case (Cons mv mvs)
  then obtain C1 where C1: "do_move ex cl mv C = Some C1" "run_moves ex cl mvs C1 = Some C'"
    by (auto split: option.splits)
  from assms(3) [OF Cons.prems(2) C1(1)] have "I C1" .
  from Cons.IH [OF C1(2) this] show ?case .
qed

text \<open>Whatever the other goroutine does on its own keeps the state well formed and
  closed halves closed.\<close>

lemma get_local_step_wf:
  assumes "local_step get_ex get_cl s Q = Some (s', Q')" and "get_wf s"
  shows "get_wf s' \<and> (streamClosed s \<longrightarrow> streamClosed s')"
proof (cases Q)
  case (Call k f)
  from get_ex_wf [OF assms(2), of k] obtain s1 b where
    "get_ex k s = Some (s1, b)" "get_wf s1" "streamClosed s \<longrightarrow> s1 = s" by blast
  with assms Call show ?thesis by auto
qed (use assms in \<open>auto split: if_splits\<close>)

lemma put_local_step_wf:
  assumes "local_step put_ex put_cl t Q = Some (t', Q')" and "put_wf t"
  shows "put_wf t' \<and> (serverClosed t \<longrightarrow> serverClosed t')
       \<and> (clientClosed t \<longrightarrow> clientClosed t')"
proof (cases Q)
  case (Call k f)
  from put_ex_wf [OF assms(2), of k] obtain t1 b where
    "put_ex k t = Some (t1, b)" "put_wf t1"
    "clientClosed t1 = (clientClosed t \<or> k = CallCloseClient)"
    "serverClosed t1 = (serverClosed t \<or> k = CallCloseServer)" by blast
  with assms Call show ?thesis by auto
qed (use assms in \<open>auto split: if_splits\<close>)

lemma leads_to_final:
  assumes "\<And>mv. do_move ex cl mv F = None"
  shows "leads_to ex cl F F"
  unfolding leads_to_def
proof (intro allI impI)
  fix mvs D assume "run_moves ex cl mvs F = Some D"
  with assms have "D = F" by (cases mvs) simp_all
  then have "run_moves ex cl [] D = Some F" by simp
  then show "\<exists>rest. run_moves ex cl rest D = Some F" ..
qed

lemma leads_to_branch:
  assumes "do_move ex cl mf C = Some Cf"
    and "\<And>mv C1. do_move ex cl mv C = Some C1 \<Longrightarrow> leads_to ex cl C1 F"
  shows "leads_to ex cl C F"
  unfolding leads_to_def
proof (intro allI impI)
  fix mvs D assume run: "run_moves ex cl mvs C = Some D"
  show "\<exists>rest. run_moves ex cl rest D = Some F"
  proof (cases mvs)
    case Nil
    with run have D: "D = C" by simp
    from assms(2) [OF assms(1)] have "leads_to ex cl Cf F" .
    then obtain rest where "run_moves ex cl rest Cf = Some F"
      unfolding leads_to_def by (metis run_moves.simps(1))
    with assms(1) D have "run_moves ex cl (mf # rest) D = Some F" by simp
    then show ?thesis ..
  next
    case (Cons mv mvs')
    with run obtain C1 where
      C1: "do_move ex cl mv C = Some C1" "run_moves ex cl mvs' C1 = Some D"
      by (auto split: option.splits)
    from assms(2) [OF C1(1)] C1(2) show ?thesis unfolding leads_to_def by blast
  qed
qed

lemma leads_to_run:
  assumes "leads_to ex cl C0 F" and "run_moves ex cl mvs C0 = Some C"
  shows "(\<exists>rest. run_moves ex cl rest C = Some F) \<and> (stuck ex cl C \<longrightarrow> C = F)"
proof -
  from assms obtain rest where rest: "run_moves ex cl rest C = Some F"
    unfolding leads_to_def by blast
  have "C = F" if st: "stuck ex cl C"
  proof (cases rest)
    case Nil
    with rest show ?thesis by simp
  next
    case (Cons mv rest')
    from st have "do_move ex cl mv C = None" by (cases mv) (simp_all add: stuck_def)
    with rest Cons show ?thesis by simp
  qed
  with rest show ?thesis by blast
qed

subsection \<open>A server method that sends one message and closes\<close>

lemma get_send_states_step:
  assumes "get_send_states P0 m C" and "do_move get_ex get_cl mv C = Some C'"
    and P0: "P0 = Call CallIsStreamClosed (\<lambda>closed.
            if closed then Return (Some (Errorf ''stream is closed''))
            else ChanSend Messages m (Call CallClose (\<lambda>_. Return None))
                   (Call CallClose (\<lambda>_. Panic)))"
  shows "get_send_states P0 m C'"
proof -
  obtain s P Q where C: "C = (s, P, Q)" by (cases C)
  obtain s' P' Q' where C': "C' = (s', P', Q')" by (cases C')
  from assms(1) C have wf: "get_wf s" by (simp add: get_send_states_def)
  show ?thesis
  proof (cases mv)
    case StepL
    from get_Close_wf [OF wf] obtain s1 where
      s1: "Close s = Some s1" "get_wf s1" "streamClosed s1" by blast
    with assms(1,2) StepL C C' show ?thesis
      by (auto simp: get_send_states_def P0 IsStreamClosed_def split: option.splits if_splits)
  next
    case StepR
    with assms C C' obtain "local_step get_ex get_cl s Q = Some (s', Q')" "P' = P"
      by (auto split: option.splits)
    with get_local_step_wf [OF _ wf] assms(1) C C' show ?thesis
      by (auto simp: get_send_states_def)
  next
    case HandLR
    with assms(1,2) C C' show ?thesis
      by (auto simp: get_send_states_def P0 split: proc.splits if_splits)
  next
    case HandRL
    with assms(1,2) C C' show ?thesis
      by (auto simp: get_send_states_def P0 split: proc.splits if_splits)
  qed
qed

lemma put_send_states_step:
  assumes "put_send_states P0 m C" and "do_move put_ex put_cl mv C = Some C'"
    and P0: "P0 = Call CallIsServerClosed (\<lambda>closed.
            if closed then Return (Some (Errorf ''stream is closed''))
            else ChanSend Responses m (Call CallCloseServer (\<lambda>_. Return None)) Panic)"
  shows "put_send_states P0 m C'"
proof -
  obtain t P Q where C: "C = (t, P, Q)" by (cases C)
  obtain t' P' Q' where C': "C' = (t', P', Q')" by (cases C')
  from assms(1) C have wf: "put_wf t" by (simp add: put_send_states_def)
  note cs = put_CloseServer_wf [OF wf]
  have wfs: "put_wf (t\<lparr>responses := ChanClosed, serverClosed := True\<rparr>)"
    using wf by (simp add: put_wf_def)
  show ?thesis
  proof (cases mv)
    case StepL
    with assms(1,2) C C' cs wfs show ?thesis
      by (auto simp: put_send_states_def P0 IsServerClosed_def split: option.splits if_splits)
  next
    case StepR
    with assms C C' obtain "local_step put_ex put_cl t Q = Some (t', Q')" "P' = P"
      by (auto split: option.splits)
    with put_local_step_wf [OF _ wf] assms(1) C C' show ?thesis
      by (auto simp: put_send_states_def)
  next
    case HandLR
    with assms(1,2) C C' show ?thesis
      by (auto simp: put_send_states_def P0 split: proc.splits if_splits)
  next
    case HandRL
    with assms(1,2) C C' show ?thesis
      by (auto simp: put_send_states_def P0 split: proc.splits if_splits)
  qed
qed

lemma put_send_states_frame:
  assumes "put_send_states P0 m (t, P, Q)" and "local_step put_ex put_cl t P = Some (t', P')"
    and P0: "P0 = Call CallIsServerClosed (\<lambda>closed.
            if closed then Return (Some (Errorf ''stream is closed''))
            else ChanSend Responses m (Call CallCloseServer (\<lambda>_. Return None)) Panic)"
  shows "clientClosed t' = clientClosed t \<and> requests t' = requests t"
proof -
  from assms(1) have wf: "put_wf t" by (simp add: put_send_states_def)
  note cs = put_CloseServer_wf [OF wf]
  from assms(1,2) cs show ?thesis
    by (auto simp: put_send_states_def P0 IsServerClosed_def split: option.splits if_splits)
qed

text \<open>
  C3. Take the server goroutine at \<open>SendMsg\<close> with an error value, next to any other
  goroutine on the same stream, and any schedule. In every configuration where
  \<open>SendMsg\<close> has returned nil, the half is closed: the closed query is true, and a
  receive on that half returns \<open>(nil, io.EOF)\<close> without being parked. This holds for the
  download stream (\<open>Recv\<close>) and for the response half of the upload stream
  (\<open>CloseAndRecv\<close>).
\<close>

theorem error_message_closes_half:
  "(get_wf s \<and> run_moves get_ex get_cl mvs (s, getObjectServer_SendMsg (Err e), Q)
        = Some (s', Return None, Q')
      \<longrightarrow> IsStreamClosed s'
          \<and> run get_ex get_cl getObjectClient_Recv s' = (s', Return (None, Some EOF)))
   \<and> (put_wf t \<and> run_moves put_ex put_cl mvs2 (t, putObjectServer_SendMsg (Err e2), R)
        = Some (t', Return None, R')
      \<longrightarrow> IsServerClosed t'
          \<and> run put_ex put_cl putObjectClient_CloseAndRecv t'
              = (t'\<lparr>requests := ChanClosed, clientClosed := True\<rparr>, Return (None, Some EOF)))"
proof (intro conjI impI)
  let ?m = "\<lparr>msg = None, err = Some e\<rparr>"
  let ?P0 = "getObjectServer_SendMsg (Err e)"
  have P0: "?P0 = Call CallIsStreamClosed (\<lambda>closed.
            if closed then Return (Some (Errorf ''stream is closed''))
            else ChanSend Messages ?m (Call CallClose (\<lambda>_. Return None))
                   (Call CallClose (\<lambda>_. Panic)))"
    by (simp add: getObjectServer_SendMsg_def)
  assume a: "get_wf s \<and> run_moves get_ex get_cl mvs (s, ?P0, Q) = Some (s', Return None, Q')"
  then have "get_send_states ?P0 ?m (s, ?P0, Q)"
    by (simp add: get_send_states_def)
  with a have "get_send_states ?P0 ?m (s', Return None, Q')"
    by (blast intro: run_moves_invariant get_send_states_step [OF _ _ P0])
  then have c: "get_wf s'" "streamClosed s'"
    by (auto simp: get_send_states_def P0)
  then show "IsStreamClosed s'" by (simp add: IsStreamClosed_def)
  from c show "run get_ex get_cl getObjectClient_Recv s' = (s', Return (None, Some EOF))"
    by (simp add: getObjectClient_Recv_def get_wf_def)
next
  let ?m = "\<lparr>msg = None, err = Some e2\<rparr>"
  let ?P0 = "putObjectServer_SendMsg (Err e2)"
  have P0: "?P0 = Call CallIsServerClosed (\<lambda>closed.
            if closed then Return (Some (Errorf ''stream is closed''))
            else ChanSend Responses ?m (Call CallCloseServer (\<lambda>_. Return None)) Panic)"
    by (simp add: putObjectServer_SendMsg_def)
  assume a: "put_wf t \<and> run_moves put_ex put_cl mvs2 (t, ?P0, R) = Some (t', Return None, R')"
  then have "put_send_states ?P0 ?m (t, ?P0, R)"
    by (simp add: put_send_states_def)
  with a have "put_send_states ?P0 ?m (t', Return None, R')"
    by (blast intro: run_moves_invariant put_send_states_step [OF _ _ P0])
  then have c: "put_wf t'" "serverClosed t'"
    by (auto simp: put_send_states_def P0)
  then show "IsServerClosed t'" by (simp add: IsServerClosed_def)
  from c put_CloseClient_wf [OF c(1)]
  show "run put_ex put_cl putObjectClient_CloseAndRecv t'
              = (t'\<lparr>requests := ChanClosed, clientClosed := True\<rparr>, Return (None, Some EOF))"
    by (simp add: putObjectClient_CloseAndRecv_def put_wf_def)
qed

theorem error_message_closes_half_witness:
  "get_wf newGetObjectStream
   \<and> run_moves get_ex get_cl [StepL, HandLR, StepL]
       (newGetObjectStream, getObjectServer_SendMsg (Err (Errorf ''boom'') :: string iface),
        getObjectClient_Recv)
     = Some (\<lparr>messages = ChanClosed, streamClosed = True\<rparr>, Return None,
             Return (None, Some (Errorf ''boom'')))
   \<and> IsStreamClosed \<lparr>messages = ChanClosed, streamClosed = True\<rparr>
   \<and> run get_ex get_cl (getObjectClient_Recv :: (string, string option \<times> error option) get_proc)
        \<lparr>messages = ChanClosed, streamClosed = True\<rparr>
     = (\<lparr>messages = ChanClosed, streamClosed = True\<rparr>, Return (None, Some EOF))
   \<and> put_wf newPutObjectStream
   \<and> run_moves put_ex put_cl [StepL, StepR, HandLR, StepL]
       (newPutObjectStream, putObjectServer_SendMsg (Err (Errorf ''boom'') :: string iface),
        putObjectClient_CloseAndRecv)
     = Some (\<lparr>requests = ChanClosed, responses = ChanClosed,
              clientClosed = True, serverClosed = True\<rparr>, Return None,
             Return (None, Some (Errorf ''boom'')))
   \<and> IsServerClosed \<lparr>requests = ChanClosed, responses = ChanClosed,
              clientClosed = True, serverClosed = True\<rparr>"
  using error_message_closes_half [of newGetObjectStream "[StepL, HandLR, StepL]"
      "Errorf ''boom''" "getObjectClient_Recv :: (string, string option \<times> error option) get_proc"
      "\<lparr>messages = ChanClosed, streamClosed = True\<rparr>" "Return (None, Some (Errorf ''boom''))"
      newPutObjectStream "[StepL, StepR, HandLR, StepL]" "Errorf ''boom''"
      "putObjectClient_CloseAndRecv :: (string, string option \<times> error option) put_proc"
      "\<lparr>requests = ChanClosed, responses = ChanClosed, clientClosed = True, serverClosed = True\<rparr>"
      "Return (None, Some (Errorf ''boom''))"]
  by (simp add: get_wf_def put_wf_def newGetObjectStream_def newPutObjectStream_def
      get_methods put_methods)

subsection \<open>Download: payloads arrive in order, then end of stream\<close>

lemma download_leads_to:
  assumes "get_wf s" and "\<not> streamClosed s"
  shows "length ps < k \<Longrightarrow>
    leads_to get_ex get_cl (s, send_all_then_close ps acc, recv_until_error k obs)
      (s\<lparr>messages := ChanClosed, streamClosed := True\<rparr>,
       Return (acc @ replicate (length ps) None),
       Return (obs @ map (\<lambda>p. (Some p, None)) ps @ [(None, Some EOF)]))"
proof (induction ps arbitrary: acc obs k)
  case Nil
  then obtain k' where k: "k = Suc k'" by (cases k) auto
  note op = get_open [OF assms]
  let ?sc = "s\<lparr>messages := ChanClosed, streamClosed := True\<rparr>"
  let ?F = "(?sc, Return acc, Return (obs @ [(None, Some EOF)]))
            :: getObjectStream \<times> ('a, error option list) get_proc
               \<times> ('a, ('a option \<times> error option) list) get_proc"
  have fin: "leads_to get_ex get_cl ?F ?F"
    by (rule leads_to_final) (case_tac mv; simp)
  have mid: "leads_to get_ex get_cl (?sc, Return acc, recv_until_error k obs) ?F"
  proof (rule leads_to_branch [where mf = StepR])
    show "do_move get_ex get_cl StepR (?sc, Return acc, recv_until_error k obs) = Some ?F"
      by (simp add: k getObjectClient_Recv_def)
  next
    fix mv C1
    assume "do_move get_ex get_cl mv (?sc, Return acc, recv_until_error k obs) = Some C1"
    then have "C1 = ?F" by (cases mv) (auto simp: k getObjectClient_Recv_def)
    with fin show "leads_to get_ex get_cl C1 ?F" by simp
  qed
  show ?case
  proof (rule leads_to_branch [where mf = StepL])
    show "do_move get_ex get_cl StepL (s, send_all_then_close [] acc, recv_until_error k obs)
        = Some (?sc, Return acc, recv_until_error k obs)"
      using assms op by (simp add: Close_def)
  next
    fix mv C1
    assume "do_move get_ex get_cl mv (s, send_all_then_close [] acc, recv_until_error k obs)
        = Some C1"
    then have "C1 = (?sc, Return acc, recv_until_error k obs)"
      using assms op by (cases mv) (auto simp: k getObjectClient_Recv_def Close_def)
    with mid show "leads_to get_ex get_cl C1
       (?sc, Return (acc @ replicate (length []) None),
        Return (obs @ map (\<lambda>p. (Some p, None)) [] @ [(None, Some EOF)]))" by simp
  qed
next
  case (Cons p ps)
  then obtain k' where k: "k = Suc k'" and k': "length ps < k'" by (cases k) auto
  note op = get_open [OF assms]
  let ?sc = "s\<lparr>messages := ChanClosed, streamClosed := True\<rparr>"
  let ?F = "(?sc, Return (acc @ replicate (length (p # ps)) None),
        Return (obs @ map (\<lambda>p. (Some p, None)) (p # ps) @ [(None, Some EOF)]))"
  let ?Q = "recv_until_error k obs"
  let ?P1 = "ChanSend Messages \<lparr>msg = Some p, err = None\<rparr>
               (send_all_then_close ps (acc @ [None])) Panic"
  let ?C2 = "(s, send_all_then_close ps (acc @ [None]),
              recv_until_error k' (obs @ [(Some p, None)]))"
  from Cons.IH [OF k', of "acc @ [None]" "obs @ [(Some p, None)]"]
  have two: "leads_to get_ex get_cl ?C2 ?F"
    by (simp add: replicate_append_same)
  have one: "leads_to get_ex get_cl (s, ?P1, ?Q) ?F"
  proof (rule leads_to_branch [where mf = HandLR])
    show "do_move get_ex get_cl HandLR (s, ?P1, ?Q) = Some ?C2"
      using op by (simp add: k getObjectClient_Recv_def)
  next
    fix mv C1 assume "do_move get_ex get_cl mv (s, ?P1, ?Q) = Some C1"
    then have "C1 = ?C2"
      using op by (cases mv) (auto simp: k getObjectClient_Recv_def)
    with two show "leads_to get_ex get_cl C1 ?F" by simp
  qed
  show ?case
  proof (rule leads_to_branch [where mf = StepL])
    show "do_move get_ex get_cl StepL (s, send_all_then_close (p # ps) acc, ?Q)
        = Some (s, ?P1, ?Q)"
      using assms by (simp add: getObjectServer_Send_def IsStreamClosed_def)
  next
    fix mv C1
    assume "do_move get_ex get_cl mv (s, send_all_then_close (p # ps) acc, ?Q) = Some C1"
    then have "C1 = (s, ?P1, ?Q)"
      using assms op
      by (cases mv)
         (auto simp: k getObjectClient_Recv_def getObjectServer_Send_def IsStreamClosed_def)
    with one show "leads_to get_ex get_cl C1 ?F" by simp
  qed
qed

text \<open>
  C4. On a new download stream, let the producer send the payloads \<open>ps\<close> with \<open>Send\<close>
  and then call \<open>Close\<close>, while the consumer calls \<open>Recv\<close> until it gets an error
  (with room for more than \<open>length ps\<close> calls). Whatever the schedule, the run can be
  continued from every configuration it reaches to the one where the stream is closed,
  every \<open>Send\<close> has returned nil, and the consumer has got the payloads of \<open>ps\<close> in order,
  each with a nil error, followed by one \<open>(nil, io.EOF)\<close>. A configuration where nothing
  can move is that one: the run neither blocks for good nor panics.
\<close>

theorem download_in_order:
  assumes "length ps < k"
    and "run_moves get_ex get_cl mvs
           (newGetObjectStream, send_all_then_close ps [], recv_until_error k []) = Some C"
  shows "(\<exists>rest. run_moves get_ex get_cl rest C =
            Some (\<lparr>messages = ChanClosed, streamClosed = True\<rparr>,
                  Return (replicate (length ps) None),
                  Return (map (\<lambda>p. (Some p, None)) ps @ [(None, Some EOF)])))
       \<and> (stuck get_ex get_cl C \<longrightarrow>
            C = (\<lparr>messages = ChanClosed, streamClosed = True\<rparr>,
                 Return (replicate (length ps) None),
                 Return (map (\<lambda>p. (Some p, None)) ps @ [(None, Some EOF)])))"
proof -
  have "leads_to get_ex get_cl
          (newGetObjectStream, send_all_then_close ps [], recv_until_error k [])
          (\<lparr>messages = ChanClosed, streamClosed = True\<rparr>,
           Return (replicate (length ps) None),
           Return (map (\<lambda>p. (Some p, None)) ps @ [(None, Some EOF)]))"
    using download_leads_to [of newGetObjectStream ps k "[]" "[]"] assms(1)
    by (simp add: get_wf_def newGetObjectStream_def)
  from leads_to_run [OF this assms(2)] show ?thesis .
qed

theorem download_in_order_witness:
  "length [''a'', ''b'', ''c''] < 4
   \<and> run_moves get_ex get_cl [StepL, HandLR, StepL, HandLR, StepL, HandLR, StepL, StepR]
        (newGetObjectStream, send_all_then_close [''a'', ''b'', ''c''] [], recv_until_error 4 [])
      = Some (\<lparr>messages = ChanClosed, streamClosed = True\<rparr>,
              Return [None, None, None],
              Return [(Some ''a'', None), (Some ''b'', None), (Some ''c'', None), (None, Some EOF)])
   \<and> stuck get_ex get_cl
        (\<lparr>messages = ChanClosed, streamClosed = True\<rparr>,
         Return [None, None, None] :: (string, error option list) get_proc,
         Return [(Some ''a'', None), (Some ''b'', None), (Some ''c'', None), (None, Some EOF)]
           :: (string, (string option \<times> error option) list) get_proc)"
  using download_in_order [of "[''a'', ''b'', ''c'']" 4
      "[StepL, HandLR, StepL, HandLR, StepL, HandLR, StepL, StepR]"
      "(\<lparr>messages = ChanClosed, streamClosed = True\<rparr>,
         Return [None, None, None],
         Return [(Some ''a'', None), (Some ''b'', None), (Some ''c'', None), (None, Some EOF)])"]
  by (simp add: eval_nat_numeral newGetObjectStream_def get_methods stuck_def)

subsection \<open>Upload: the terminal message\<close>

lemma upload_result_leads_to:
  assumes "put_wf t" and "\<not> serverClosed t"
  shows "leads_to put_ex put_cl
           (t, putObjectServer_SendAndClose (Some R), putObjectClient_CloseAndRecv)
           (t\<lparr>requests := ChanClosed, clientClosed := True,
              responses := ChanClosed, serverClosed := True\<rparr>,
            Return None, Return (Some R, None))"
    (is "leads_to _ _ ?C00 ?F")
proof -
  let ?tc = "t\<lparr>requests := ChanClosed, clientClosed := True\<rparr>"
  let ?RR = "Return (Some R, None :: error option)
             :: ('a, 'a option \<times> error option) put_proc"
  let ?K = "Call CallCloseServer (\<lambda>_. Return None) :: ('a, error option) put_proc"
  let ?S1 = "ChanSend Responses \<lparr>msg = Some R, err = None\<rparr> ?K Panic"
  let ?R1 = "ChanRecv Responses (\<lambda>r. case r of None \<Rightarrow> Return (None, Some EOF)
                | Some resp \<Rightarrow> Return (msg resp, err resp))
             :: ('a, 'a option \<times> error option) put_proc"
  let ?S0 = "putObjectServer_SendAndClose (Some R)"
  let ?R0 = "putObjectClient_CloseAndRecv :: ('a, 'a option \<times> error option) put_proc"
  note op = put_open_server [OF assms]
  note cc = put_CloseClient_wf [OF assms(1)]
  have wfc: "put_wf ?tc" using assms by (simp add: put_wf_def)
  note cs = put_CloseServer_wf [OF wfc]
  note defs = putObjectServer_SendAndClose_def putObjectClient_CloseAndRecv_def
    IsServerClosed_def
  have fin: "leads_to put_ex put_cl ?F ?F"
    by (rule leads_to_final) (case_tac mv; simp)
  have c2: "leads_to put_ex put_cl (?tc, ?K, ?RR) ?F"
  proof (rule leads_to_branch [where mf = StepL])
    show "do_move put_ex put_cl StepL (?tc, ?K, ?RR) = Some ?F"
      using cs by simp
  next
    fix mv C1 assume "do_move put_ex put_cl mv (?tc, ?K, ?RR) = Some C1"
    then have "C1 = ?F" using cs by (cases mv) auto
    with fin show "leads_to put_ex put_cl C1 ?F" by simp
  qed
  have c11: "leads_to put_ex put_cl (?tc, ?S1, ?R1) ?F"
  proof (rule leads_to_branch [where mf = HandLR])
    show "do_move put_ex put_cl HandLR (?tc, ?S1, ?R1) = Some (?tc, ?K, ?RR)"
      using op by simp
  next
    fix mv C1 assume "do_move put_ex put_cl mv (?tc, ?S1, ?R1) = Some C1"
    then have "C1 = (?tc, ?K, ?RR)" using op by (cases mv) auto
    with c2 show "leads_to put_ex put_cl C1 ?F" by simp
  qed
  have c10: "leads_to put_ex put_cl (t, ?S1, ?R0) ?F"
  proof (rule leads_to_branch [where mf = StepR])
    show "do_move put_ex put_cl StepR (t, ?S1, ?R0) = Some (?tc, ?S1, ?R1)"
      using cc by (simp add: defs)
  next
    fix mv C1 assume "do_move put_ex put_cl mv (t, ?S1, ?R0) = Some C1"
    then have "C1 = (?tc, ?S1, ?R1)" using op cc by (cases mv) (auto simp: defs)
    with c11 show "leads_to put_ex put_cl C1 ?F" by simp
  qed
  have c01: "leads_to put_ex put_cl (?tc, ?S0, ?R1) ?F"
  proof (rule leads_to_branch [where mf = StepL])
    show "do_move put_ex put_cl StepL (?tc, ?S0, ?R1) = Some (?tc, ?S1, ?R1)"
      using assms by (simp add: defs)
  next
    fix mv C1 assume "do_move put_ex put_cl mv (?tc, ?S0, ?R1) = Some C1"
    then have "C1 = (?tc, ?S1, ?R1)" using op assms by (cases mv) (auto simp: defs)
    with c11 show "leads_to put_ex put_cl C1 ?F" by simp
  qed
  show ?thesis
  proof (rule leads_to_branch [where mf = StepL])
    show "do_move put_ex put_cl StepL ?C00 = Some (t, ?S1, ?R0)"
      using assms by (simp add: defs)
  next
    fix mv C1 assume "do_move put_ex put_cl mv ?C00 = Some C1"
    then have "C1 = (t, ?S1, ?R0) \<or> C1 = (?tc, ?S0, ?R1)"
      using op assms cc by (cases mv) (auto simp: defs)
    with c10 c01 show "leads_to put_ex put_cl C1 ?F" by auto
  qed
qed

lemma upload_abrupt_leads_to:
  assumes "put_wf t" and "\<not> serverClosed t"
  shows "leads_to put_ex put_cl
           (t, Call CallCloseServer (\<lambda>_. Return ()), putObjectClient_CloseAndRecv)
           (t\<lparr>requests := ChanClosed, clientClosed := True,
              responses := ChanClosed, serverClosed := True\<rparr>,
            Return (), Return (None, Some EOF))"
    (is "leads_to _ _ ?C00 ?F")
proof -
  let ?tc = "t\<lparr>requests := ChanClosed, clientClosed := True\<rparr>"
  let ?ts = "t\<lparr>responses := ChanClosed, serverClosed := True\<rparr>"
  let ?tcs = "t\<lparr>requests := ChanClosed, clientClosed := True,
              responses := ChanClosed, serverClosed := True\<rparr>"
  let ?S0 = "Call CallCloseServer (\<lambda>_. Return ()) :: ('a, unit) put_proc"
  let ?R1 = "ChanRecv Responses (\<lambda>r. case r of None \<Rightarrow> Return (None, Some EOF)
                | Some resp \<Rightarrow> Return (msg resp, err resp))
             :: ('a, 'a option \<times> error option) put_proc"
  let ?R0 = "putObjectClient_CloseAndRecv :: ('a, 'a option \<times> error option) put_proc"
  note op = put_open_server [OF assms]
  note cc = put_CloseClient_wf [OF assms(1)]
  note cs = put_CloseServer_wf [OF assms(1)]
  have wfc: "put_wf ?tc" and wfs: "put_wf ?ts" using assms by (simp_all add: put_wf_def)
  note ccs = put_CloseClient_wf [OF wfs]
  note csc = put_CloseServer_wf [OF wfc]
  note defs = putObjectClient_CloseAndRecv_def
  have fin: "leads_to put_ex put_cl ?F ?F"
    by (rule leads_to_final) (case_tac mv; simp)
  have c11: "leads_to put_ex put_cl (?tcs, Return (), ?R1) ?F"
  proof (rule leads_to_branch [where mf = StepR])
    show "do_move put_ex put_cl StepR (?tcs, Return (), ?R1) = Some ?F" by simp
  next
    fix mv C1 assume "do_move put_ex put_cl mv (?tcs, Return (), ?R1) = Some C1"
    then have "C1 = ?F" by (cases mv) auto
    with fin show "leads_to put_ex put_cl C1 ?F" by simp
  qed
  have c10: "leads_to put_ex put_cl (?ts, Return (), ?R0) ?F"
  proof (rule leads_to_branch [where mf = StepR])
    show "do_move put_ex put_cl StepR (?ts, Return (), ?R0) = Some (?tcs, Return (), ?R1)"
      using ccs by (simp add: defs)
  next
    fix mv C1 assume "do_move put_ex put_cl mv (?ts, Return (), ?R0) = Some C1"
    then have "C1 = (?tcs, Return (), ?R1)" using ccs by (cases mv) (auto simp: defs)
    with c11 show "leads_to put_ex put_cl C1 ?F" by simp
  qed
  have c01: "leads_to put_ex put_cl (?tc, ?S0, ?R1) ?F"
  proof (rule leads_to_branch [where mf = StepL])
    show "do_move put_ex put_cl StepL (?tc, ?S0, ?R1) = Some (?tcs, Return (), ?R1)"
      using csc by simp
  next
    fix mv C1 assume "do_move put_ex put_cl mv (?tc, ?S0, ?R1) = Some C1"
    then have "C1 = (?tcs, Return (), ?R1)" using csc op by (cases mv) auto
    with c11 show "leads_to put_ex put_cl C1 ?F" by simp
  qed
  show ?thesis
  proof (rule leads_to_branch [where mf = StepL])
    show "do_move put_ex put_cl StepL ?C00 = Some (?ts, Return (), ?R0)"
      using cs by simp
  next
    fix mv C1 assume "do_move put_ex put_cl mv ?C00 = Some C1"
    then have "C1 = (?ts, Return (), ?R0) \<or> C1 = (?tc, ?S0, ?R1)"
      using cs cc by (cases mv) (auto simp: defs)
    with c10 c01 show "leads_to put_ex put_cl C1 ?F" by auto
  qed
qed

text \<open>
  C5. Take an upload stream whose response half is open. \<open>CloseAndRecv\<close> alone closes
  the request half and is then parked in the receive on the response channel. Next to a
  server that calls \<open>SendAndClose(R)\<close>, every run, however scheduled, can be continued to
  the configuration where \<open>CloseAndRecv\<close> has returned \<open>(R, nil)\<close> and \<open>SendAndClose\<close> has
  returned nil, and no other configuration is stuck. Next to a goroutine that only closes
  the response half, every run can be continued to the configuration where \<open>CloseAndRecv\<close>
  has returned \<open>(nil, io.EOF)\<close>, and no other configuration is stuck. On a stream \<open>u\<close>
  whose response half is closed already, \<open>CloseAndRecv\<close> returns \<open>(nil, io.EOF)\<close> at once.
\<close>

theorem CloseAndRecv_result:
  assumes "put_wf t" and "\<not> IsServerClosed t"
    and "run_moves put_ex put_cl mvs
           (t, putObjectServer_SendAndClose (Some R), putObjectClient_CloseAndRecv) = Some C"
    and "run_moves put_ex put_cl mvs2
           (t, Call CallCloseServer (\<lambda>_. Return ()), putObjectClient_CloseAndRecv) = Some D"
    and "put_wf u" and "IsServerClosed u"
  shows "run put_ex put_cl putObjectClient_CloseAndRecv t
           = (t\<lparr>requests := ChanClosed, clientClosed := True\<rparr>,
              ChanRecv Responses (\<lambda>r. case r of None \<Rightarrow> Return (None, Some EOF)
                | Some resp \<Rightarrow> Return (msg resp, err resp)))
       \<and> (\<exists>rest. run_moves put_ex put_cl rest C =
             Some (t\<lparr>requests := ChanClosed, clientClosed := True,
                     responses := ChanClosed, serverClosed := True\<rparr>,
                   Return None, Return (Some R, None)))
       \<and> (stuck put_ex put_cl C \<longrightarrow>
             C = (t\<lparr>requests := ChanClosed, clientClosed := True,
                    responses := ChanClosed, serverClosed := True\<rparr>,
                  Return None, Return (Some R, None)))
       \<and> (\<exists>rest. run_moves put_ex put_cl rest D =
             Some (t\<lparr>requests := ChanClosed, clientClosed := True,
                     responses := ChanClosed, serverClosed := True\<rparr>,
                   Return (), Return (None, Some EOF)))
       \<and> (stuck put_ex put_cl D \<longrightarrow>
             D = (t\<lparr>requests := ChanClosed, clientClosed := True,
                    responses := ChanClosed, serverClosed := True\<rparr>,
                  Return (), Return (None, Some EOF)))
       \<and> run put_ex put_cl putObjectClient_CloseAndRecv u
           = (u\<lparr>requests := ChanClosed, clientClosed := True\<rparr>, Return (None, Some EOF))"
proof -
  from assms(2) have op: "\<not> serverClosed t" by (simp add: IsServerClosed_def)
  from assms(6) have cl: "serverClosed u" by (simp add: IsServerClosed_def)
  have a: "run put_ex put_cl putObjectClient_CloseAndRecv t
           = (t\<lparr>requests := ChanClosed, clientClosed := True\<rparr>,
              ChanRecv Responses (\<lambda>r. case r of None \<Rightarrow> Return (None, Some EOF)
                | Some resp \<Rightarrow> Return (msg resp, err resp)))"
    using put_CloseClient_wf [OF assms(1)] put_open_server [OF assms(1) op]
    by (simp add: putObjectClient_CloseAndRecv_def)
  have b: "run put_ex put_cl putObjectClient_CloseAndRecv u
           = (u\<lparr>requests := ChanClosed, clientClosed := True\<rparr>, Return (None, Some EOF))"
    using put_CloseClient_wf [OF assms(5)] assms(5) cl
    by (simp add: putObjectClient_CloseAndRecv_def put_wf_def)
  from a b leads_to_run [OF upload_result_leads_to [OF assms(1) op] assms(3)]
    leads_to_run [OF upload_abrupt_leads_to [OF assms(1) op] assms(4)]
  show ?thesis by blast
qed

theorem CloseAndRecv_result_witness:
  "put_wf newPutObjectStream \<and> \<not> IsServerClosed newPutObjectStream
   \<and> run_moves put_ex put_cl [StepL, StepR, HandLR, StepL]
        (newPutObjectStream, putObjectServer_SendAndClose (Some ''R''),
         putObjectClient_CloseAndRecv)
      = Some (\<lparr>requests = ChanClosed, responses = ChanClosed,
               clientClosed = True, serverClosed = True\<rparr>,
              Return None, Return (Some ''R'', None))
   \<and> run_moves put_ex put_cl [StepR, StepL, StepR]
        (newPutObjectStream, Call CallCloseServer (\<lambda>_. Return ()),
         putObjectClient_CloseAndRecv :: (string, string option \<times> error option) put_proc)
      = Some (\<lparr>requests = ChanClosed, responses = ChanClosed,
               clientClosed = True, serverClosed = True\<rparr>,
              Return (), Return (None, Some EOF))
   \<and> put_wf \<lparr>requests = ChanOpen, responses = ChanClosed,
              clientClosed = False, serverClosed = True\<rparr>
   \<and> IsServerClosed \<lparr>requests = ChanOpen, responses = ChanClosed,
              clientClosed = False, serverClosed = True\<rparr>
   \<and> stuck put_ex put_cl
        (\<lparr>requests = ChanClosed, responses = ChanClosed,
          clientClosed = True, serverClosed = True\<rparr>,
         Return None :: (string, error option) put_proc,
         Return (Some ''R'', None) :: (string, string option \<times> error option) put_proc)
   \<and> run put_ex put_cl
        (putObjectClient_CloseAndRecv :: (string, string option \<times> error option) put_proc)
        \<lparr>requests = ChanOpen, responses = ChanClosed, clientClosed = False, serverClosed = True\<rparr>
      = (\<lparr>requests = ChanClosed, responses = ChanClosed,
          clientClosed = True, serverClosed = True\<rparr>, Return (None, Some EOF))"
  using CloseAndRecv_result [of newPutObjectStream "[StepL, StepR, HandLR, StepL]" "''R''"
      "(\<lparr>requests = ChanClosed, responses = ChanClosed,
               clientClosed = True, serverClosed = True\<rparr>,
              Return None, Return (Some ''R'', None))"
      "[StepR, StepL, StepR]"
      "(\<lparr>requests = ChanClosed, responses = ChanClosed,
               clientClosed = True, serverClosed = True\<rparr>,
              Return (), Return (None, Some EOF))"
      "\<lparr>requests = ChanOpen, responses = ChanClosed, clientClosed = False, serverClosed = True\<rparr>"]
  by (simp add: put_wf_def newPutObjectStream_def put_methods stuck_def)

subsection \<open>Upload: what \<open>SendAndClose\<close> changes\<close>

lemma upload_send_leads_to:
  assumes "put_wf t" and "\<not> serverClosed t"
  shows "leads_to put_ex put_cl
           (t, putObjectServer_SendAndClose (Some r), ChanRecv Responses Return)
           (t\<lparr>responses := ChanClosed, serverClosed := True\<rparr>,
            Return None, Return (Some \<lparr>msg = Some r, err = None\<rparr>))"
    (is "leads_to _ _ ?C0 ?F")
proof -
  let ?m = "\<lparr>msg = Some r, err = None\<rparr>"
  let ?K = "Call CallCloseServer (\<lambda>_. Return None) :: ('a, error option) put_proc"
  let ?S1 = "ChanSend Responses ?m ?K Panic"
  let ?Q0 = "ChanRecv Responses Return
             :: ('a, 'a getObjectStreamResponse option) put_proc"
  let ?Q1 = "Return (Some ?m) :: ('a, 'a getObjectStreamResponse option) put_proc"
  note op = put_open_server [OF assms]
  note cs = put_CloseServer_wf [OF assms(1)]
  note defs = putObjectServer_SendAndClose_def IsServerClosed_def
  have fin: "leads_to put_ex put_cl ?F ?F"
    by (rule leads_to_final) (case_tac mv; simp)
  have c2: "leads_to put_ex put_cl (t, ?K, ?Q1) ?F"
  proof (rule leads_to_branch [where mf = StepL])
    show "do_move put_ex put_cl StepL (t, ?K, ?Q1) = Some ?F"
      using cs by simp
  next
    fix mv C1 assume "do_move put_ex put_cl mv (t, ?K, ?Q1) = Some C1"
    then have "C1 = ?F" using cs by (cases mv) auto
    with fin show "leads_to put_ex put_cl C1 ?F" by simp
  qed
  have c1: "leads_to put_ex put_cl (t, ?S1, ?Q0) ?F"
  proof (rule leads_to_branch [where mf = HandLR])
    show "do_move put_ex put_cl HandLR (t, ?S1, ?Q0) = Some (t, ?K, ?Q1)"
      using op by simp
  next
    fix mv C1 assume "do_move put_ex put_cl mv (t, ?S1, ?Q0) = Some C1"
    then have "C1 = (t, ?K, ?Q1)" using op by (cases mv) auto
    with c2 show "leads_to put_ex put_cl C1 ?F" by simp
  qed
  show ?thesis
  proof (rule leads_to_branch [where mf = StepL])
    show "do_move put_ex put_cl StepL ?C0 = Some (t, ?S1, ?Q0)"
      using assms by (simp add: defs)
  next
    fix mv C1 assume "do_move put_ex put_cl mv ?C0 = Some C1"
    then have "C1 = (t, ?S1, ?Q0)" using op assms by (cases mv) (auto simp: defs)
    with c1 show "leads_to put_ex put_cl C1 ?F" by simp
  qed
qed

text \<open>
  C9. Take the server goroutine at \<open>SendAndClose\<close> with a payload that is not nil, next
  to any other goroutine, and any schedule. Where \<open>SendAndClose\<close> has returned nil,
  \<open>IsServerClosed\<close> is true; and no step of the server goroutine changes \<open>clientClosed\<close>
  or the request channel. With nothing but a receiver waiting on the response channel
  and the response half open, every run can be continued to the state that differs from
  the first one in \<open>responses\<close> and \<open>serverClosed\<close> only, the payload delivered, and no
  other configuration is stuck.
\<close>

theorem SendAndClose_closes_response_half_only:
  assumes "put_wf t"
    and "run_moves put_ex put_cl mvs (t, putObjectServer_SendAndClose (Some r), Q)
           = Some (t1, P1, Q1)"
    and "run_moves put_ex put_cl mvs2
           (t, putObjectServer_SendAndClose (Some r), ChanRecv Responses Return) = Some C"
  shows "(P1 = Return None \<longrightarrow> IsServerClosed t1)
       \<and> (\<forall>t2 P2. local_step put_ex put_cl t1 P1 = Some (t2, P2)
             \<longrightarrow> clientClosed t2 = clientClosed t1 \<and> requests t2 = requests t1)
       \<and> (\<not> IsServerClosed t \<longrightarrow>
            (\<exists>rest. run_moves put_ex put_cl rest C =
               Some (t\<lparr>responses := ChanClosed, serverClosed := True\<rparr>,
                     Return None, Return (Some \<lparr>msg = Some r, err = None\<rparr>)))
            \<and> (stuck put_ex put_cl C \<longrightarrow>
                 C = (t\<lparr>responses := ChanClosed, serverClosed := True\<rparr>,
                      Return None, Return (Some \<lparr>msg = Some r, err = None\<rparr>))))"
proof -
  let ?m = "\<lparr>msg = Some r, err = None\<rparr>"
  let ?P0 = "putObjectServer_SendAndClose (Some r)"
  have P0: "?P0 = Call CallIsServerClosed (\<lambda>closed.
            if closed then Return (Some (Errorf ''stream is closed''))
            else ChanSend Responses ?m (Call CallCloseServer (\<lambda>_. Return None)) Panic)"
    by (simp add: putObjectServer_SendAndClose_def)
  from assms(1) have "put_send_states ?P0 ?m (t, ?P0, Q)"
    by (simp add: put_send_states_def)
  with assms(2) have inv: "put_send_states ?P0 ?m (t1, P1, Q1)"
    by (blast intro: run_moves_invariant put_send_states_step [OF _ _ P0])
  then have one: "P1 = Return None \<longrightarrow> IsServerClosed t1"
    by (auto simp: put_send_states_def P0 IsServerClosed_def)
  have two: "\<forall>t2 P2. local_step put_ex put_cl t1 P1 = Some (t2, P2)
             \<longrightarrow> clientClosed t2 = clientClosed t1 \<and> requests t2 = requests t1"
    using put_send_states_frame [OF inv _ P0] by blast
  have three: "(\<exists>rest. run_moves put_ex put_cl rest C =
               Some (t\<lparr>responses := ChanClosed, serverClosed := True\<rparr>,
                     Return None, Return (Some ?m)))
            \<and> (stuck put_ex put_cl C \<longrightarrow>
                 C = (t\<lparr>responses := ChanClosed, serverClosed := True\<rparr>,
                      Return None, Return (Some ?m)))"
    if "\<not> IsServerClosed t"
  proof -
    from that have "\<not> serverClosed t" by (simp add: IsServerClosed_def)
    from leads_to_run [OF upload_send_leads_to [OF assms(1) this] assms(3)]
    show ?thesis .
  qed
  from one two three show ?thesis by blast
qed

theorem SendAndClose_closes_response_half_only_witness:
  "put_wf newPutObjectStream
   \<and> run_moves put_ex put_cl [StepL, StepR, HandLR]
        (newPutObjectStream, putObjectServer_SendAndClose (Some ''R''),
         putObjectClient_CloseAndRecv)
      = Some (\<lparr>requests = ChanClosed, responses = ChanOpen,
               clientClosed = True, serverClosed = False\<rparr>,
              Call CallCloseServer (\<lambda>_. Return None), Return (Some ''R'', None))
   \<and> local_step put_ex put_cl
        \<lparr>requests = ChanClosed, responses = ChanOpen, clientClosed = True, serverClosed = False\<rparr>
        (Call CallCloseServer (\<lambda>_. Return None) :: (string, error option) put_proc)
      = Some (\<lparr>requests = ChanClosed, responses = ChanClosed,
               clientClosed = True, serverClosed = True\<rparr>, Return None)
   \<and> run_moves put_ex put_cl [StepL, HandLR, StepL]
        (newPutObjectStream, putObjectServer_SendAndClose (Some ''R''),
         ChanRecv Responses Return)
      = Some (\<lparr>requests = ChanOpen, responses = ChanClosed,
               clientClosed = False, serverClosed = True\<rparr>,
              Return None, Return (Some \<lparr>msg = Some ''R'', err = None\<rparr>))
   \<and> \<not> IsServerClosed newPutObjectStream"
  using SendAndClose_closes_response_half_only [of newPutObjectStream
      "[StepL, StepR, HandLR]" "''R''"
      "putObjectClient_CloseAndRecv :: (string, string option \<times> error option) put_proc"
      "\<lparr>requests = ChanClosed, responses = ChanOpen, clientClosed = True, serverClosed = False\<rparr>"
      "Call CallCloseServer (\<lambda>_. Return None)" "Return (Some ''R'', None)"
      "[StepL, HandLR, StepL]"
      "(\<lparr>requests = ChanOpen, responses = ChanClosed, clientClosed = False, serverClosed = True\<rparr>,
        Return None, Return (Some \<lparr>msg = Some ''R'', err = None\<rparr>))"]
  by (simp add: put_wf_def newPutObjectStream_def put_methods)

subsection \<open>Half-close by the client\<close>

text \<open>
  C8. \<open>CloseSend\<close> of the download client and of the upload client: on a closed half it
  returns the error "stream is closed" and leaves the state as it is; on an open half it
  returns nil and the half is closed afterwards, so that a receive on it (\<open>Recv\<close> of the
  download client, \<open>Recv\<close> of the upload server) returns \<open>(nil, io.EOF)\<close> without being
  parked.
\<close>

theorem CloseSend_half_close:
  assumes "get_wf s" and "put_wf t"
  shows "(if IsStreamClosed s
          then run get_ex get_cl getObjectClient_CloseSend s
                 = (s, Return (Some (Errorf ''stream is closed'')))
          else run get_ex get_cl getObjectClient_CloseSend s
                 = (s\<lparr>messages := ChanClosed, streamClosed := True\<rparr>, Return None)
               \<and> IsStreamClosed (s\<lparr>messages := ChanClosed, streamClosed := True\<rparr>)
               \<and> run get_ex get_cl getObjectClient_Recv
                    (s\<lparr>messages := ChanClosed, streamClosed := True\<rparr>)
                 = (s\<lparr>messages := ChanClosed, streamClosed := True\<rparr>,
                    Return (None, Some EOF)))
       \<and> (if IsClientClosed t
          then run put_ex put_cl putObjectClient_CloseSend t
                 = (t, Return (Some (Errorf ''stream is closed'')))
          else run put_ex put_cl putObjectClient_CloseSend t
                 = (t\<lparr>requests := ChanClosed, clientClosed := True\<rparr>, Return None)
               \<and> IsClientClosed (t\<lparr>requests := ChanClosed, clientClosed := True\<rparr>)
               \<and> run put_ex put_cl putObjectServer_Recv
                    (t\<lparr>requests := ChanClosed, clientClosed := True\<rparr>)
                 = (t\<lparr>requests := ChanClosed, clientClosed := True\<rparr>,
                    Return (None, Some EOF)))
       \<and> AlreadyClosed (Errorf ''stream is closed'')"
proof -
  have g: "\<not> streamClosed s \<Longrightarrow>
      Close s = Some (s\<lparr>messages := ChanClosed, streamClosed := True\<rparr>)"
    using get_open [OF assms(1)] by (simp add: Close_def)
  note c = put_CloseClient_wf [OF assms(2)]
  show ?thesis
    using g c
    by (simp add: getObjectClient_CloseSend_def getObjectClient_Recv_def
        putObjectClient_CloseSend_def putObjectServer_Recv_def
        IsStreamClosed_def IsClientClosed_def AlreadyClosed_def)
qed

theorem CloseSend_half_close_witness:
  "get_wf newGetObjectStream \<and> put_wf newPutObjectStream
   \<and> run get_ex get_cl (getObjectClient_CloseSend :: (string, error option) get_proc)
        newGetObjectStream
       = (\<lparr>messages = ChanClosed, streamClosed = True\<rparr>, Return None)
   \<and> run get_ex get_cl (getObjectClient_CloseSend :: (string, error option) get_proc)
        \<lparr>messages = ChanClosed, streamClosed = True\<rparr>
       = (\<lparr>messages = ChanClosed, streamClosed = True\<rparr>,
          Return (Some (Errorf ''stream is closed'')))
   \<and> run put_ex put_cl (putObjectClient_CloseSend :: (string, error option) put_proc)
        newPutObjectStream
       = (\<lparr>requests = ChanClosed, responses = ChanOpen,
           clientClosed = True, serverClosed = False\<rparr>, Return None)"
  using CloseSend_half_close [of newGetObjectStream newPutObjectStream]
  by (simp add: get_wf_def put_wf_def newGetObjectStream_def newPutObjectStream_def
      get_methods put_methods)

text \<open>
  C10. \<open>CloseAndRecv\<close> calls \<open>CloseClient\<close> without asking whether the request half is
  closed. In every state, with the request half closed or not, it goes on to the receive
  on the response channel: it is parked there while the response half is open, and it
  returns \<open>(nil, io.EOF)\<close> when the response half is closed; what it returns after a
  hand-off is the content of the message. With the request half closed before, the
  call of \<open>CloseClient\<close> changes nothing, where \<open>CloseSend\<close> returns the error
  "stream is closed".
\<close>

theorem CloseAndRecv_never_AlreadyClosed:
  assumes "put_wf t"
  shows "run put_ex put_cl putObjectClient_CloseAndRecv t
           = (t\<lparr>requests := ChanClosed, clientClosed := True\<rparr>,
              if IsServerClosed t then Return (None, Some EOF)
              else ChanRecv Responses (\<lambda>r. case r of None \<Rightarrow> Return (None, Some EOF)
                     | Some resp \<Rightarrow> Return (msg resp, err resp)))
       \<and> (if IsClientClosed t
          then t\<lparr>requests := ChanClosed, clientClosed := True\<rparr> = t
               \<and> run put_ex put_cl putObjectClient_CloseSend t
                   = (t, Return (Some (Errorf ''stream is closed'')))
          else run put_ex put_cl putObjectClient_CloseSend t
                   = (t\<lparr>requests := ChanClosed, clientClosed := True\<rparr>, Return None))"
proof -
  note c = put_CloseClient_wf [OF assms]
  have "responses t = ChanClosed \<longleftrightarrow> serverClosed t"
    using assms by (simp add: put_wf_def)
  moreover have "clientClosed t \<Longrightarrow> t\<lparr>requests := ChanClosed, clientClosed := True\<rparr> = t"
    using assms by (simp add: put_wf_def)
  ultimately show ?thesis
    using c
    by (simp add: putObjectClient_CloseAndRecv_def putObjectClient_CloseSend_def
        IsServerClosed_def IsClientClosed_def)
qed

theorem CloseAndRecv_never_AlreadyClosed_witness:
  "put_wf \<lparr>requests = ChanClosed, responses = ChanOpen,
           clientClosed = True, serverClosed = False\<rparr>
   \<and> run put_ex put_cl
        (putObjectClient_CloseAndRecv :: (string, string option \<times> error option) put_proc)
        \<lparr>requests = ChanClosed, responses = ChanOpen, clientClosed = True, serverClosed = False\<rparr>
      = (\<lparr>requests = ChanClosed, responses = ChanOpen, clientClosed = True, serverClosed = False\<rparr>,
         ChanRecv Responses (\<lambda>r. case r of None \<Rightarrow> Return (None, Some EOF)
            | Some resp \<Rightarrow> Return (msg resp, err resp)))
   \<and> run put_ex put_cl (putObjectClient_CloseSend :: (string, error option) put_proc)
        \<lparr>requests = ChanClosed, responses = ChanOpen, clientClosed = True, serverClosed = False\<rparr>
      = (\<lparr>requests = ChanClosed, responses = ChanOpen, clientClosed = True, serverClosed = False\<rparr>,
         Return (Some (Errorf ''stream is closed'')))"
  using CloseAndRecv_never_AlreadyClosed
    [of "\<lparr>requests = ChanClosed, responses = ChanOpen, clientClosed = True, serverClosed = False\<rparr>"]
  by (simp add: put_wf_def put_methods)

subsection \<open>The generic \<open>SendMsg\<close> and \<open>RecvMsg\<close>\<close>

text \<open>
  C1, as the code has it. On the download server, \<open>SendMsg\<close> with a payload that is not
  nil is the same process as \<open>Send\<close>. On the upload server, \<open>SendMsg\<close> with a payload
  that is not nil is rejected on a closed response half as \<open>SendAndClose\<close> is, and on an
  open one offers the same message on the response channel; unlike \<open>SendAndClose\<close> it
  returns after the hand-off without closing. On both servers \<open>SendMsg\<close> with an error
  value returns "stream is closed" on a closed half, and on an open one offers the error
  on the channel and calls \<open>closeStream\<close> after the hand-off; with the nil interface or
  a value of another type it returns an "invalid argument" error. \<open>SendMsg\<close> and
  \<open>RecvMsg\<close> of both clients, and \<open>RecvMsg\<close> of both servers, return nil for every
  argument and do nothing else.
\<close>

theorem SendMsg_like_typed:
  "getObjectServer_SendMsg (Response (Some p)) = getObjectServer_Send (Some p)
   \<and> (IsStreamClosed s \<longrightarrow>
        run get_ex get_cl (getObjectServer_SendMsg (Err e)) s
          = (s, Return (Some (Errorf ''stream is closed''))))
   \<and> (get_wf s \<and> \<not> IsStreamClosed s \<longrightarrow>
        run get_ex get_cl (getObjectServer_SendMsg (Err e)) s
          = (s, ChanSend Messages \<lparr>msg = None, err = Some e\<rparr>
                  (Call CallClose (\<lambda>_. Return None)) (Call CallClose (\<lambda>_. Panic))))
   \<and> (\<exists>e'. getObjectServer_SendMsg NilIface = Return (Some e') \<and> InvalidArgument e')
   \<and> (\<exists>e'. getObjectServer_SendMsg (Other x) = Return (Some e') \<and> InvalidArgument e')
   \<and> (IsServerClosed t \<longrightarrow>
        run put_ex put_cl (putObjectServer_SendMsg (Response (Some q))) t
          = (t, Return (Some (Errorf ''stream is closed'')))
        \<and> run put_ex put_cl (putObjectServer_SendAndClose (Some q)) t
          = (t, Return (Some (Errorf ''stream is closed'')))
        \<and> run put_ex put_cl (putObjectServer_SendMsg (Err e)) t
          = (t, Return (Some (Errorf ''stream is closed''))))
   \<and> (put_wf t \<and> \<not> IsServerClosed t \<longrightarrow>
        run put_ex put_cl (putObjectServer_SendMsg (Response (Some q))) t
          = (t, ChanSend Responses \<lparr>msg = Some q, err = None\<rparr> (Return None) Panic)
        \<and> run put_ex put_cl (putObjectServer_SendAndClose (Some q)) t
          = (t, ChanSend Responses \<lparr>msg = Some q, err = None\<rparr>
                  (Call CallCloseServer (\<lambda>_. Return None)) Panic)
        \<and> run put_ex put_cl (putObjectServer_SendMsg (Err e)) t
          = (t, ChanSend Responses \<lparr>msg = None, err = Some e\<rparr>
                  (Call CallCloseServer (\<lambda>_. Return None)) Panic))
   \<and> (\<exists>e'. putObjectServer_SendMsg NilIface = Return (Some e') \<and> InvalidArgument e')
   \<and> (\<exists>e'. putObjectServer_SendMsg (Other x) = Return (Some e') \<and> InvalidArgument e')
   \<and> getObjectClient_SendMsg m = Return None \<and> getObjectClient_RecvMsg m = Return None
   \<and> putObjectClient_SendMsg m = Return None \<and> putObjectClient_RecvMsg m = Return None
   \<and> getObjectServer_RecvMsg m = Return None \<and> putObjectServer_RecvMsg m = Return None"
proof -
  have g: "get_wf s \<and> \<not> IsStreamClosed s \<longrightarrow> messages s = ChanOpen"
    using get_open [of s] by (simp add: IsStreamClosed_def)
  have u: "put_wf t \<and> \<not> IsServerClosed t \<longrightarrow> responses t = ChanOpen"
    using put_open_server [of t] by (simp add: IsServerClosed_def)
  have srv: "getObjectServer_SendMsg (Response (Some p)) = getObjectServer_Send (Some p)"
    by (simp add: getObjectServer_SendMsg_def getObjectServer_Send_def)
  have inv: "(\<exists>e'. getObjectServer_SendMsg NilIface = Return (Some e') \<and> InvalidArgument e')
     \<and> (\<exists>e'. getObjectServer_SendMsg (Other x) = Return (Some e') \<and> InvalidArgument e')
     \<and> (\<exists>e'. putObjectServer_SendMsg NilIface = Return (Some e') \<and> InvalidArgument e')
     \<and> (\<exists>e'. putObjectServer_SendMsg (Other x) = Return (Some e') \<and> InvalidArgument e')"
    by (simp add: getObjectServer_SendMsg_def putObjectServer_SendMsg_def InvalidArgument_def)
  have stubs: "getObjectClient_SendMsg m = Return None \<and> getObjectClient_RecvMsg m = Return None
     \<and> putObjectClient_SendMsg m = Return None \<and> putObjectClient_RecvMsg m = Return None
     \<and> getObjectServer_RecvMsg m = Return None \<and> putObjectServer_RecvMsg m = Return None"
    by (simp add: getObjectClient_SendMsg_def getObjectClient_RecvMsg_def
        putObjectClient_SendMsg_def putObjectClient_RecvMsg_def
        getObjectServer_RecvMsg_def putObjectServer_RecvMsg_def)
  have runs_get: "(IsStreamClosed s \<longrightarrow>
        run get_ex get_cl (getObjectServer_SendMsg (Err e)) s
          = (s, Return (Some (Errorf ''stream is closed''))))
     \<and> (get_wf s \<and> \<not> IsStreamClosed s \<longrightarrow>
        run get_ex get_cl (getObjectServer_SendMsg (Err e)) s
          = (s, ChanSend Messages \<lparr>msg = None, err = Some e\<rparr>
                  (Call CallClose (\<lambda>_. Return None)) (Call CallClose (\<lambda>_. Panic))))"
    using g by (simp add: getObjectServer_SendMsg_def)
  have runs_put: "(IsServerClosed t \<longrightarrow>
        run put_ex put_cl (putObjectServer_SendMsg (Response (Some q))) t
          = (t, Return (Some (Errorf ''stream is closed'')))
        \<and> run put_ex put_cl (putObjectServer_SendAndClose (Some q)) t
          = (t, Return (Some (Errorf ''stream is closed'')))
        \<and> run put_ex put_cl (putObjectServer_SendMsg (Err e)) t
          = (t, Return (Some (Errorf ''stream is closed''))))
     \<and> (put_wf t \<and> \<not> IsServerClosed t \<longrightarrow>
        run put_ex put_cl (putObjectServer_SendMsg (Response (Some q))) t
          = (t, ChanSend Responses \<lparr>msg = Some q, err = None\<rparr> (Return None) Panic)
        \<and> run put_ex put_cl (putObjectServer_SendAndClose (Some q)) t
          = (t, ChanSend Responses \<lparr>msg = Some q, err = None\<rparr>
                  (Call CallCloseServer (\<lambda>_. Return None)) Panic)
        \<and> run put_ex put_cl (putObjectServer_SendMsg (Err e)) t
          = (t, ChanSend Responses \<lparr>msg = None, err = Some e\<rparr>
                  (Call CallCloseServer (\<lambda>_. Return None)) Panic))"
    using u by (simp add: putObjectServer_SendMsg_def putObjectServer_SendAndClose_def)
  from srv inv stubs runs_get runs_put show ?thesis by blast
qed

theorem SendMsg_like_typed_witness:
  "get_wf newGetObjectStream \<and> \<not> IsStreamClosed newGetObjectStream
   \<and> put_wf newPutObjectStream \<and> \<not> IsServerClosed newPutObjectStream
   \<and> getObjectServer_SendMsg (Response (Some ''a'')) = getObjectServer_Send (Some ''a'')
   \<and> run get_ex get_cl (getObjectServer_SendMsg (Err (Errorf ''boom'') :: string iface))
        newGetObjectStream
      = (newGetObjectStream,
         ChanSend Messages \<lparr>msg = None, err = Some (Errorf ''boom'')\<rparr>
           (Call CallClose (\<lambda>_. Return None)) (Call CallClose (\<lambda>_. Panic)))
   \<and> run put_ex put_cl (putObjectServer_SendMsg (Response (Some ''r''))) newPutObjectStream
      = (newPutObjectStream,
         ChanSend Responses \<lparr>msg = Some ''r'', err = None\<rparr> (Return None) Panic)
   \<and> getObjectServer_SendMsg (Other ''42'' :: string iface)
      = Return (Some (Errorf ''invalid argument 42''))"
  using SendMsg_like_typed [of "''a''" newGetObjectStream "Errorf ''boom''" "''42''"
      newPutObjectStream "''r''" NilIface]
  by (simp add: get_wf_def put_wf_def newGetObjectStream_def newPutObjectStream_def
      get_methods put_methods)

text \<open>
  C1, as the claim states it, fails. \<open>Send\<close> of the download server rejects a nil
  payload, while \<open>SendMsg\<close> with a nil pointer of the response type offers a message
  without payload on the channel, and the client receives \<open>(nil, nil)\<close>. And \<open>SendMsg\<close>
  of the upload client returns nil for a value that is neither payload nor error, and
  for a payload sends nothing, while the client's \<open>Send\<close> offers the payload on the
  request channel.
\<close>

theorem SendMsg_nil_payload_counterexample:
  "run get_ex get_cl (getObjectServer_SendMsg (Response (None :: string option)))
        newGetObjectStream
     \<noteq> run get_ex get_cl (getObjectServer_Send (None :: string option)) newGetObjectStream
   \<and> run get_ex get_cl (getObjectServer_Send (None :: string option)) newGetObjectStream
     = (newGetObjectStream,
        Return (Some (Errorf ''parameter arg \"resp GetObjectResponse\" cannot be nil'')))
   \<and> run get_ex get_cl (getObjectServer_SendMsg (Response (None :: string option)))
        newGetObjectStream
     = (newGetObjectStream, ChanSend Messages \<lparr>msg = None, err = None\<rparr> (Return None) Panic)
   \<and> run_moves get_ex get_cl [StepL, HandLR]
        (newGetObjectStream, getObjectServer_SendMsg (Response (None :: string option)),
         getObjectClient_Recv)
     = Some (newGetObjectStream, Return None, Return (None, None))
   \<and> putObjectClient_SendMsg (Other ''42'' :: string iface) = Return None
   \<and> run put_ex put_cl (putObjectClient_SendMsg (Response (Some ''x''))) newPutObjectStream
     = (newPutObjectStream, Return None)
   \<and> run put_ex put_cl (putObjectClient_Send (Some ''x'')) newPutObjectStream
     = (newPutObjectStream,
        ChanSend Requests \<lparr>msg = Some ''x'', err = None\<rparr> (Return None) Panic)"
  by (simp add: newGetObjectStream_def newPutObjectStream_def get_methods put_methods
      putObjectClient_SendMsg_def)

end
